theory Spec2Isabelle
  imports Main "HOL-Library.Sublist" "HOL-Library.AList"
begin

section \<open>Python strings\<close>

text \<open>
  A Python \<open>str\<close> is modelled as a \<^typ>\<open>string\<close>: a list of 8-bit characters, read as
  the code points below 256. The functions below are the string operations that
  \<open>main.py\<close> uses: \<open>sub in s\<close>, \<open>s.replace(old, new)\<close> and \<open>s.strip()\<close>.
\<close>

text \<open>\<open>sub in s\<close>: \<open>sub\<close> occurs in \<open>s\<close> as a contiguous substring.\<close>

fun py_in :: "string \<Rightarrow> string \<Rightarrow> bool" where
  "py_in sub [] = (sub = [])"
| "py_in sub (c # s) = (prefix sub (c # s) \<or> py_in sub s)"

text \<open>
  \<open>s.replace(old, new)\<close>: every non-overlapping occurrence of \<open>old\<close>, scanning from the
  left, is replaced by \<open>new\<close>. For an empty \<open>old\<close> Python inserts \<open>new\<close> before every
  character and at the end.
\<close>

function replace :: "string \<Rightarrow> string \<Rightarrow> string \<Rightarrow> string" where
  "replace old new s =
     (if old = [] then new @ concat (map (\<lambda>c. c # new) s)
      else if prefix old s then new @ replace old new (drop (length old) s)
      else (case s of [] \<Rightarrow> [] | c # s' \<Rightarrow> c # replace old new s'))"
  by pat_completeness auto
termination
  by (relation "measure (\<lambda>(old, new, s). length s)") (auto simp: prefix_def)

declare replace.simps [simp del]

text \<open>
  \<open>str.isspace\<close> on the code points below 256: TAB, LF, VT, FF, CR, the four separators
  0x1c..0x1f, SPACE, NEL (0x85) and NBSP (0xa0). The regular-expression class \<open>\s\<close> of a
  \<open>str\<close> pattern is the same set.
\<close>

definition isspace :: "char \<Rightarrow> bool" where
  "isspace c =
     (let n = (of_char c :: nat)
      in (9 \<le> n \<and> n \<le> 13) \<or> (28 \<le> n \<and> n \<le> 32) \<or> n = 133 \<or> n = 160)"

text \<open>\<open>s.strip()\<close>: leading and trailing whitespace removed.\<close>

definition strip :: "string \<Rightarrow> string" where
  "strip s = rev (dropWhile isspace (rev (dropWhile isspace s)))"

section \<open>The regular expressions of the extraction tier\<close>

text \<open>
  \<open>re.search(pattern, s, re.DOTALL)\<close> for the pattern shapes the program uses. A pattern is
  a sequence of items; matching is the backtracking search of Python's engine: the
  leftmost start position wins, a lazy \<open>.*?\<close> tries the shortest extension first, a greedy
  \<open>[...]*\<close> the longest first. Under \<open>re.DOTALL\<close> the dot matches every character.
\<close>

datatype rx =
    Lit string                \<comment> \<open>a literal piece of text\<close>
  | Dot_star_lazy             \<comment> \<open>\<open>.*?\<close> under \<open>re.DOTALL\<close>\<close>
  | Set1 "char \<Rightarrow> bool"       \<comment> \<open>one character of a class\<close>
  | Set_star "char \<Rightarrow> bool"   \<comment> \<open>greedy \<open>[...]*\<close>\<close>
  | Grp_open                  \<comment> \<open>\<open>(\<close> of group 1\<close>
  | Grp_close                 \<comment> \<open>\<open>)\<close> of group 1\<close>

text \<open>
  The state of group 1 during a match: not yet entered, entered (holding the characters
  consumed since, most recent first), or closed with its text.
\<close>

datatype capture = Unopened | Opened string | Closed string

fun eat :: "string \<Rightarrow> capture \<Rightarrow> capture" where
  "eat cs (Opened acc) = Opened (rev cs @ acc)"
| "eat cs g = g"

fun close_group :: "capture \<Rightarrow> capture" where
  "close_group (Opened acc) = Closed (rev acc)"
| "close_group g = g"

fun rx_match :: "rx list \<Rightarrow> string \<Rightarrow> capture \<Rightarrow> capture option" where
  "rx_match [] s g = Some g"
| "rx_match (Lit l # rs) s g =
     (if prefix l s then rx_match rs (drop (length l) s) (eat l g) else None)"
| "rx_match (Grp_open # rs) s g = rx_match rs s (Opened [])"
| "rx_match (Grp_close # rs) s g = rx_match rs s (close_group g)"
| "rx_match (Set1 P # rs) [] g = None"
| "rx_match (Set1 P # rs) (c # s) g = (if P c then rx_match rs s (eat [c] g) else None)"
| "rx_match (Dot_star_lazy # rs) [] g = rx_match rs [] g"
| "rx_match (Dot_star_lazy # rs) (c # s) g =
     (case rx_match rs (c # s) g of
        Some r \<Rightarrow> Some r
      | None \<Rightarrow> rx_match (Dot_star_lazy # rs) s (eat [c] g))"
| "rx_match (Set_star P # rs) [] g = rx_match rs [] g"
| "rx_match (Set_star P # rs) (c # s) g =
     (if P c then
        (case rx_match (Set_star P # rs) s (eat [c] g) of
           Some r \<Rightarrow> Some r
         | None \<Rightarrow> rx_match rs (c # s) g)
      else rx_match rs (c # s) g)"

text \<open>\<open>m.group(1)\<close> of a match.\<close>

fun group1 :: "capture \<Rightarrow> string" where
  "group1 (Closed t) = t"
| "group1 g = []"

text \<open>
  \<open>re.search\<close>: the first start position, from the left, at which the pattern matches;
  the result is \<open>None\<close> (no match) or the text of group 1.
\<close>

fun re_search :: "rx list \<Rightarrow> string \<Rightarrow> string option" where
  "re_search p [] = map_option group1 (rx_match p [] Unopened)"
| "re_search p (c # s) =
     (case rx_match p (c # s) Unopened of
        Some g \<Rightarrow> Some (group1 g)
      | None \<Rightarrow> re_search p s)"

definition value_open :: string where
  \<open>value_open = ''<div class="certificate-value">''\<close>

definition div_close :: string where
  "div_close = ''</div>''"

text \<open>
  \<open>r'LABEL.*?<div class="certificate-value">(.*?)</div>'\<close>: the three certificate
  patterns differ in the label only.
\<close>

definition certificate_re :: "string \<Rightarrow> rx list" where
  "certificate_re label =
     [Lit label, Dot_star_lazy, Lit value_open, Grp_open, Dot_star_lazy, Grp_close,
      Lit div_close]"

text \<open>\<open>r'<div class="timeline-title[^>]*">Sent by\s+(.*?)</div>'\<close>\<close>

definition timeline_re :: "rx list" where
  \<open>timeline_re =
     [Lit ''<div class="timeline-title'', Set_star (\<lambda>c. c \<noteq> CHR ''>''),
      Lit ''">Sent by'', Set1 isspace, Set_star isspace,
      Grp_open, Dot_star_lazy, Grp_close, Lit div_close]\<close>

section \<open>Values, dictionaries and the raw extraction\<close>

text \<open>
  The Python values that reach a result dictionary or a table cell. A \<open>float\<close> is kept
  by its \<open>repr\<close>. A dictionary is an association list in insertion order;
  \<open>d[k] = v\<close> is \<^const>\<open>AList.update\<close>, \<open>d.get(k)\<close> is \<^const>\<open>map_of\<close>.
\<close>

datatype pyval =
    PNone
  | PBool bool
  | PInt int
  | PFloat string
  | PStr string
  | PList "pyval list"
  | PDict "(string \<times> pyval) list"

type_synonym pydict = "(string \<times> pyval) list"

datatype exn = KeyError string | TypeError string | OtherError string

text \<open>
  One entry of \<open>sent_by_blocks\<close> and the dictionary returned by
  \<open>extract_certificate_info\<close>. A field is \<open>None\<close> when the dictionary has no such key.
\<close>

record block =
  html :: "string option"
  title_text :: "string option"   \<comment> \<open>the key \<open>text\<close>\<close>

record raw_data =
  certificate_html :: "string option"
  timeline_html :: "string option"
  sent_by_blocks :: "block list option"

text \<open>
  The loop that \<open>parse_with_openai\<close> and \<open>manual_extract\<close> both run over the blocks:
  the first block with a \<open>text\<close> key whose text contains \<open>Sent by\<close> decides, then \<open>break\<close>.
\<close>

fun sent_by_from_blocks :: "block list \<Rightarrow> string option" where
  "sent_by_from_blocks [] = None"
| "sent_by_from_blocks (b # bs) =
     (case title_text b of
        Some t \<Rightarrow>
          if py_in ''Sent by'' t then Some (strip (replace ''Sent by'' [] t))
          else sent_by_from_blocks bs
      | None \<Rightarrow> sent_by_from_blocks bs)"

section \<open>The pattern tier: \<open>manual_extract\<close>\<close>

text \<open>
  One certificate field: the label test, then the search inside \<open>try ... except: pass\<close>.
  The search function is a parameter so that a raising search is a branch of the model;
  it returns \<open>Inl\<close> when it raises, \<open>Inr None\<close> for no match and \<open>Inr (Some g)\<close> for a
  match with group 1 equal to \<open>g\<close>.
\<close>

definition extract_field ::
  "(rx list \<Rightarrow> string \<Rightarrow> exn + string option) \<Rightarrow> string \<Rightarrow> string \<Rightarrow> string \<Rightarrow> pydict \<Rightarrow> pydict"
where
  "extract_field search label key cert result =
     (if py_in label cert then
        (case search (certificate_re label) cert of
           Inr (Some g) \<Rightarrow> AList.update key (PStr (strip g)) result
         | Inr None \<Rightarrow> result
         | Inl e \<Rightarrow> result)
      else result)"

text \<open>
  \<open>if result["Sent by"] == "Not found" and "sent_by_blocks" in raw_data and
  raw_data["sent_by_blocks"]\<close>, then the loop over the blocks.
\<close>

definition sent_by_from_raw :: "raw_data \<Rightarrow> pydict \<Rightarrow> pydict" where
  "sent_by_from_raw raw result =
     (if map_of result ''Sent by'' = Some (PStr ''Not found'') then
        (case sent_by_blocks raw of
           None \<Rightarrow> result
         | Some blocks \<Rightarrow>
             (case sent_by_from_blocks blocks of
                None \<Rightarrow> result
              | Some v \<Rightarrow> AList.update ''Sent by'' (PStr v) result))
      else result)"

text \<open>\<open>if result["Sent by"] == "Not found"\<close>, then the search over the timeline markup.\<close>

definition sent_by_from_timeline ::
  "(rx list \<Rightarrow> string \<Rightarrow> exn + string option) \<Rightarrow> string \<Rightarrow> pydict \<Rightarrow> pydict"
where
  "sent_by_from_timeline search timeline result =
     (if map_of result ''Sent by'' = Some (PStr ''Not found'') then
        (case search timeline_re timeline of
           Inr (Some g) \<Rightarrow> AList.update ''Sent by'' (PStr (strip g)) result
         | Inr None \<Rightarrow> result
         | Inl e \<Rightarrow> result)
      else result)"

definition manual_extract_with ::
  "(rx list \<Rightarrow> string \<Rightarrow> exn + string option) \<Rightarrow> raw_data \<Rightarrow> string \<Rightarrow> exn + pydict"
where
  "manual_extract_with search raw sent_by =
     (let result = [(''Signed by'', PStr ''Not found''),
                    (''Signed date'', PStr ''Not found''),
                    (''IP address'', PStr ''Not found''),
                    (''Sent by'', PStr sent_by)]
      in case certificate_html raw of
           None \<Rightarrow> Inl (KeyError ''certificate_html'')
         | Some cert \<Rightarrow>
        (case timeline_html raw of
           None \<Rightarrow> Inl (KeyError ''timeline_html'')
         | Some timeline \<Rightarrow>
             let result = extract_field search ''Accepted and Signed by'' ''Signed by'' cert result;
                 result = extract_field search ''Accepted and Signed on'' ''Signed date'' cert result;
                 result = extract_field search ''IP Address from signature location''
                            ''IP address'' cert result;
                 result = sent_by_from_raw raw result;
                 result = sent_by_from_timeline search timeline result
             in Inr result))"

text \<open>\<open>re.search\<close> on these patterns and a \<open>str\<close> subject does not raise.\<close>

definition py_re_search :: "rx list \<Rightarrow> string \<Rightarrow> exn + string option" where
  "py_re_search p s = Inr (re_search p s)"

definition manual_extract :: "raw_data \<Rightarrow> string \<Rightarrow> exn + pydict" where
  "manual_extract = manual_extract_with py_re_search"

section \<open>The model tier: \<open>parse_with_openai\<close>\<close>

text \<open>
  What \<open>openai.chat.completions.create\<close> followed by \<open>json.loads\<close> delivers: the call (or
  reading the response) raises, the content is not JSON, or the content decodes to a
  value. The request is determined by the certificate fragment and the directly derived
  sender, the two variable parts of the prompt.
\<close>

datatype completion = Api_error | Not_json | Json pyval

record env =
  api_key :: "string option"
  chat_completion :: "string \<Rightarrow> string \<Rightarrow> completion"

text \<open>\<open>not openai.api_key\<close>: the key is \<open>None\<close> or the empty string.\<close>

definition key_missing :: "env \<Rightarrow> bool" where
  "key_missing e = (case api_key e of None \<Rightarrow> True | Some k \<Rightarrow> k = [])"

text \<open>The direct derivation of the sender at the top of \<open>parse_with_openai\<close>.\<close>

definition direct_sent_by :: "raw_data \<Rightarrow> string" where
  "direct_sent_by raw =
     (case sent_by_blocks raw of
        None \<Rightarrow> ''Not found''
      | Some blocks \<Rightarrow>
          (case sent_by_from_blocks blocks of None \<Rightarrow> ''Not found'' | Some v \<Rightarrow> v))"

text \<open>
  \<open>return self.manual_extract(raw_data, sent_by)\<close> inside the inner \<open>try\<close>: when it raises,
  the handler \<open>except Exception\<close> calls it again, and when that raises too the outermost
  handler returns \<open>self.manual_extract(raw_data)\<close>, whose exception leaves the method.
\<close>

definition fallback :: "raw_data \<Rightarrow> string \<Rightarrow> exn + pydict" where
  "fallback raw sent_by =
     (case manual_extract raw sent_by of
        Inr d \<Rightarrow> Inr d
      | Inl e \<Rightarrow>
          (case manual_extract raw sent_by of
             Inr d \<Rightarrow> Inr d
           | Inl e' \<Rightarrow> manual_extract raw ''Not found''))"

text \<open>
  The result is paired with the number of requests sent to the model service.
\<close>

definition parse_with_openai :: "env \<Rightarrow> raw_data \<Rightarrow> (exn + pydict) \<times> nat" where
  "parse_with_openai e raw =
     (let sent_by = direct_sent_by raw
      in case certificate_html raw of
           None \<Rightarrow> (manual_extract raw ''Not found'', 0)
         | Some cert \<Rightarrow>
             if key_missing e then (fallback raw sent_by, 0)
             else
               (case chat_completion e cert sent_by of
                  Json (PDict parsed_data) \<Rightarrow>
                    (Inr (AList.update ''Sent by'' (PStr sent_by) parsed_data), 1)
                | Json v \<Rightarrow> (fallback raw sent_by, 1)
                | Not_json \<Rightarrow> (fallback raw sent_by, 1)
                | Api_error \<Rightarrow> (fallback raw sent_by, 1)))"

text \<open>\<open>result.get(k)\<close> on what a tier returns; \<open>None\<close> when the tier raised.\<close>

definition get_field :: "exn + pydict \<Rightarrow> string \<Rightarrow> pyval option" where
  "get_field r k = (case r of Inl e \<Rightarrow> None | Inr d \<Rightarrow> map_of d k)"

section \<open>The certificate patterns, in the words of the specification\<close>

text \<open>
  \<open>split_first p s\<close> cuts \<open>s\<close> at the first (leftmost) occurrence of \<open>p\<close> into the text
  before it and the text after it.
\<close>

fun split_first :: "string \<Rightarrow> string \<Rightarrow> (string \<times> string) option" where
  "split_first p [] = (if p = [] then Some ([], []) else None)"
| "split_first p (c # s) =
     (if prefix p (c # s) then Some ([], drop (length p) (c # s))
      else (case split_first p s of None \<Rightarrow> None | Some (a, b) \<Rightarrow> Some (c # a, b)))"

text \<open>
  The specification's reading of a certificate pattern: find the label phrase; after it,
  the nearest element of class \<open>certificate-value\<close>; its content runs up to the nearest
  closing tag.
\<close>

definition value_after_open :: "string \<Rightarrow> string option" where
  "value_after_open t =
     (case split_first value_open t of
        None \<Rightarrow> None
      | Some (between, after_open) \<Rightarrow>
          (case split_first div_close after_open of
             None \<Rightarrow> None
           | Some (v, rest) \<Rightarrow> Some v))"

definition value_after_label :: "string \<Rightarrow> string \<Rightarrow> string option" where
  "value_after_label label cert =
     (case split_first label cert of
        None \<Rightarrow> None
      | Some (before, after_label) \<Rightarrow> value_after_open after_label)"

section \<open>The authentication check\<close>

text \<open>
  What the driver answers during \<open>check_authentication_status\<close>: the current URL,
  \<open>find_element(By.ID, "form_login")\<close> (an element, \<open>NoSuchElementException\<close>, or another
  exception) and \<open>find_elements(By.CLASS_NAME, "user-menu")\<close> (a list of so many elements,
  or an exception).
\<close>

datatype find_element_result = Found | NoSuchElement | Find_error exn

datatype find_elements_result = Elements nat | Find_raises

record page =
  current_url :: "exn + string"
  form_login :: find_element_result
  user_menu :: find_elements_result

datatype probe = Probe_form_login | Probe_user_menu

text \<open>The result is paired with the DOM probes performed, in order.\<close>

definition check_authentication_status :: "page \<Rightarrow> (exn + bool) \<times> probe list" where
  "check_authentication_status p =
     (case current_url p of
        Inl e \<Rightarrow> (Inl e, [])
      | Inr url \<Rightarrow>
          if py_in ''proposals/view'' url \<or> py_in ''dashboard'' url then (Inr True, [])
          else if py_in ''/login/'' url then
            (case form_login p of
               Found \<Rightarrow> (Inr False, [Probe_form_login])
             | Find_error e \<Rightarrow> (Inl e, [Probe_form_login])
             | NoSuchElement \<Rightarrow>
                 (case user_menu p of
                    Elements n \<Rightarrow>
                      if 0 < n then (Inr True, [Probe_form_login, Probe_user_menu])
                      else (Inr False, [Probe_form_login, Probe_user_menu])
                  | Find_raises \<Rightarrow> (Inr False, [Probe_form_login, Probe_user_menu])))
          else
            (case user_menu p of
               Elements n \<Rightarrow>
                 if 0 < n then (Inr True, [Probe_user_menu]) else (Inr False, [Probe_user_menu])
             | Find_raises \<Rightarrow> (Inr False, [Probe_user_menu])))"

section \<open>One scraper run and its teardown\<close>

text \<open>
  The scraper object, as far as the teardown is concerned: whether \<open>self.driver\<close> is set,
  whether a browser started by this object is still running, and what happened so far
  (oldest first).
\<close>

datatype event = Chrome_started | Cleanup_called | Driver_quit | Quit_failed

record scraper =
  driver :: bool
  session_open :: bool
  events :: "event list"

definition new_scraper :: scraper where
  "new_scraper = \<lparr>driver = False, session_open = False, events = []\<rparr>"

text \<open>
  What the browser and the site do during one run: whether \<open>uc.Chrome(options=options)\<close>
  returns a driver, whether \<open>maximize_window()\<close> returns, the URL after
  \<open>driver.get(document_url)\<close> (or the exception), the results of \<open>login()\<close> and
  \<open>navigate_to_document()\<close> (each catches every exception and returns a truth value), the
  result of \<open>extract_certificate_info()\<close>, and whether \<open>driver.quit()\<close> returns.
\<close>

record browser =
  chrome_starts :: bool
  maximize_ok :: bool
  direct_url :: "exn + string"
  login_result :: bool
  navigate_result :: bool
  extracted :: "raw_data option"
  quit_ok :: bool

definition setup_driver :: "browser \<Rightarrow> scraper \<Rightarrow> bool \<times> scraper" where
  "setup_driver b s =
     (if chrome_starts b then
        (let s = s\<lparr>driver := True, session_open := True, events := events s @ [Chrome_started]\<rparr>
         in if maximize_ok b then (True, s) else (False, s))
      else (False, s))"

definition navigate_directly_to_document :: "browser \<Rightarrow> bool" where
  "navigate_directly_to_document b =
     (case direct_url b of
        Inl e \<Rightarrow> False
      | Inr url \<Rightarrow>
          if py_in ''proposals/view'' url then True
          else if py_in ''/login/'' url then False
          else False)"

definition cleanup :: "browser \<Rightarrow> scraper \<Rightarrow> scraper" where
  "cleanup b s =
     (let s = s\<lparr>events := events s @ [Cleanup_called]\<rparr>
      in if driver s then
           (if quit_ok b then s\<lparr>session_open := False, events := events s @ [Driver_quit]\<rparr>
            else s\<lparr>events := events s @ [Quit_failed]\<rparr>)
         else s)"

definition run :: "env \<Rightarrow> browser \<Rightarrow> scraper \<Rightarrow> pydict option \<times> scraper" where
  "run e b s =
     (case setup_driver b s of
        (False, s) \<Rightarrow> (None, s)
      | (True, s) \<Rightarrow>
          if \<not> navigate_directly_to_document b \<and> \<not> login_result b then (None, cleanup b s)
          else if \<not> navigate_directly_to_document b \<and> \<not> navigate_result b
          then (None, cleanup b s)
          else
            (case extracted b of
               None \<Rightarrow> (None, cleanup b s)
             | Some raw \<Rightarrow>
                 (case fst (parse_with_openai e raw) of
                    Inl ex \<Rightarrow> (None, cleanup b s)
                  | Inr parsed_data \<Rightarrow>
                      if parsed_data = [] then (None, cleanup b s)
                      else (Some parsed_data, cleanup b s))))"

section \<open>The batch over the spreadsheet\<close>

text \<open>
  A \<open>DataFrame\<close> with the default \<open>RangeIndex\<close>: its columns in order, each a name and
  the cells of that column from row 0 on.
\<close>

type_synonym dataframe = "(string \<times> pyval list) list"

text \<open>\<open>len(df)\<close>\<close>

definition nrows :: "dataframe \<Rightarrow> nat" where
  "nrows df = (case df of [] \<Rightarrow> 0 | (name, col) # rest \<Rightarrow> length col)"

text \<open>
  \<open>df[name] = v\<close> with a scalar \<open>v\<close>: an existing column of that name is overwritten in
  place, a new name is appended as the last column.
\<close>

definition set_column :: "string \<Rightarrow> pyval \<Rightarrow> dataframe \<Rightarrow> dataframe" where
  "set_column name v df = AList.update name (replicate (nrows df) v) df"

text \<open>\<open>df.at[i, name] = v\<close> for an existing column and a row label in range.\<close>

definition at_set :: "nat \<Rightarrow> string \<Rightarrow> pyval \<Rightarrow> dataframe \<Rightarrow> dataframe" where
  "at_set i name v df = AList.map_entry name (\<lambda>col. col[i := v]) df"

text \<open>\<open>df.iloc[i][name]\<close>\<close>

definition iloc :: "dataframe \<Rightarrow> nat \<Rightarrow> string \<Rightarrow> exn + pyval" where
  "iloc df i name =
     (if nrows df \<le> i then Inl (OtherError ''single positional indexer is out-of-bounds'')
      else
        (case map_of df name of
           None \<Rightarrow> Inl (KeyError name)
         | Some col \<Rightarrow>
             if i < length col then Inr (col ! i)
             else Inl (OtherError ''single positional indexer is out-of-bounds'')))"

text \<open>The cell of a column at a row, when the table has both.\<close>

definition cell :: "dataframe \<Rightarrow> string \<Rightarrow> nat \<Rightarrow> pyval option" where
  "cell df name i =
     (case map_of df name of
        None \<Rightarrow> None
      | Some col \<Rightarrow> if i < length col then Some (col ! i) else None)"

text \<open>\<open>str(e)\<close>; a \<open>KeyError\<close> prints the \<open>repr\<close> of its key.\<close>

fun exn_str :: "exn \<Rightarrow> string" where
  "exn_str (KeyError k) = CHR 0x27 # k @ [CHR 0x27]"
| "exn_str (TypeError m) = m"
| "exn_str (OtherError m) = m"

text \<open>
  What the statements of the per-row \<open>try\<close> between reading the row and recording the
  result do: an exception leaves them (from the constructor, from \<open>run\<close>, or from a
  statement after it), or \<open>scraper.run()\<close> returns its result (a dictionary or \<open>None\<close>)
  and the row is recorded.
\<close>

datatype row_outcome = Raises exn | Returns "pydict option"

text \<open>
  The surroundings of a batch: \<open>pd.read_csv\<close> on a URL, the outcome of the scrape at the
  \<open>i\<close>-th row for its document URL, and whether \<open>to_csv\<close> returns.
\<close>

record world =
  read_csv :: "string \<Rightarrow> exn + dataframe"
  scrape :: "nat \<Rightarrow> pyval \<Rightarrow> row_outcome"
  to_csv_ok :: bool

definition export_url :: "string \<Rightarrow> string" where
  "export_url sheet_url =
     (if py_in ''edit?usp=sharing'' sheet_url
      then replace ''edit?usp=sharing'' ''export?format=csv'' sheet_url
      else if py_in ''edit'' sheet_url then replace ''edit'' ''export?format=csv'' sheet_url
      else sheet_url @ ''/export?format=csv'')"

text \<open>
  \<open>read_google_sheet\<close> wraps its whole body in \<open>try ... except Exception\<close>: it returns a
  table or \<open>None\<close>. The result is a sum so that its caller's handler has a case to take.
\<close>

definition read_google_sheet :: "world \<Rightarrow> string \<Rightarrow> exn + dataframe option" where
  "read_google_sheet w sheet_url =
     Inr (case read_csv w (export_url sheet_url) of Inl e \<Rightarrow> None | Inr df \<Rightarrow> Some df)"

text \<open>\<open>[a-zA-Z0-9-_]\<close>\<close>

definition sheet_id_char :: "char \<Rightarrow> bool" where
  "sheet_id_char c =
     (let n = (of_char c :: nat)
      in (97 \<le> n \<and> n \<le> 122) \<or> (65 \<le> n \<and> n \<le> 90) \<or> (48 \<le> n \<and> n \<le> 57)
         \<or> c = CHR ''-'' \<or> c = CHR ''_'')"

text \<open>\<open>r'/d/([a-zA-Z0-9-_]+)'\<close>\<close>

definition sheet_id_re :: "rx list" where
  "sheet_id_re = [Lit ''/d/'', Grp_open, Set1 sheet_id_char, Set_star sheet_id_char, Grp_close]"

definition download_google_sheet :: "world \<Rightarrow> string \<Rightarrow> dataframe option" where
  "download_google_sheet w sheet_url =
     (case re_search sheet_id_re sheet_url of
        None \<Rightarrow> None
      | Some sheet_id \<Rightarrow>
          (case read_csv w (''https://docs.google.com/spreadsheets/d/'' @ sheet_id
                            @ ''/export?format=csv'') of
             Inl e \<Rightarrow> None
           | Inr df \<Rightarrow> Some df))"

definition sample_df :: dataframe where
  "sample_df =
     [(''Company'', [PStr ''BHA Strategy'', PStr ''Integrity Design'', PStr ''Providence Diamond'']),
      (''Document type'',
         [PStr ''https://betterproposals.io/2/proposals/view?id=2366358'',
          PStr ''https://betterproposals.io/2/proposals/view?id=2392944'',
          PStr ''https://betterproposals.io/2/proposals/view?id=2423564'']),
      (''Value'', [PStr ''$33,200.00'', PStr ''$41,920.00'', PStr ''$39,710.00'']),
      (''Date Created'', [PStr ''18 Mar 2025'', PStr ''04 Apr 2025'', PStr ''29 Apr 2025'']),
      (''Signed On'', [PStr ''08 May 2025'', PStr ''30 Apr 2025'', PStr ''30 Apr 2025'']),
      (''Signed by'', [PStr ''Katy Sully'', PStr ''Brandon Earls'', PStr ''Daniel Pritsker''])]"

text \<open>
  The table the batch works on: \<open>read_google_sheet\<close>, in its handler
  \<open>download_google_sheet\<close>, and the sample when the table is \<open>None\<close> or has no rows.
\<close>

definition load_table :: "world \<Rightarrow> string \<Rightarrow> dataframe" where
  "load_table w sheet_url =
     (let df = (case read_google_sheet w sheet_url of
                  Inr df \<Rightarrow> df
                | Inl e \<Rightarrow> download_google_sheet w sheet_url)
      in case df of
           None \<Rightarrow> sample_df
         | Some df \<Rightarrow> if nrows df = 0 then sample_df else df)"

text \<open>\<open>d.get(k, default)\<close>\<close>

definition dict_get :: "pydict \<Rightarrow> string \<Rightarrow> pyval \<Rightarrow> pyval" where
  "dict_get d k dflt = (case map_of d k of None \<Rightarrow> dflt | Some v \<Rightarrow> v)"

text \<open>The three ways a row is recorded: \<open>if result\<close>, its \<open>else\<close>, and the handler.\<close>

definition row_found :: "pydict \<Rightarrow> nat \<Rightarrow> dataframe \<Rightarrow> dataframe" where
  "row_found result i results_df =
     (let results_df = at_set i ''Extracted Signed by''
                         (dict_get result ''Signed by'' (PStr ''Not found'')) results_df;
          results_df = at_set i ''Extracted Signed date''
                         (dict_get result ''Signed date'' (PStr ''Not found'')) results_df;
          results_df = at_set i ''Extracted IP address''
                         (dict_get result ''IP address'' (PStr ''Not found'')) results_df;
          results_df = at_set i ''Extracted Sent by''
                         (dict_get result ''Sent by'' (PStr ''Not found'')) results_df
      in results_df)"

definition row_failed :: "nat \<Rightarrow> dataframe \<Rightarrow> dataframe" where
  "row_failed i results_df =
     (let results_df = at_set i ''Extracted Signed by'' (PStr ''Error'') results_df;
          results_df = at_set i ''Extracted Signed date'' (PStr ''Error'') results_df;
          results_df = at_set i ''Extracted IP address'' (PStr ''Error'') results_df;
          results_df = at_set i ''Extracted Sent by'' (PStr ''Error'') results_df
      in results_df)"

definition row_error :: "exn \<Rightarrow> nat \<Rightarrow> dataframe \<Rightarrow> dataframe" where
  "row_error e i results_df =
     (let results_df = at_set i ''Extracted Signed by'' (PStr (''Error: '' @ exn_str e)) results_df;
          results_df = at_set i ''Extracted Signed date'' (PStr ''Error'') results_df;
          results_df = at_set i ''Extracted IP address'' (PStr ''Error'') results_df;
          results_df = at_set i ''Extracted Sent by'' (PStr ''Error'') results_df
      in results_df)"

text \<open>The body of the loop for row \<open>i\<close>.\<close>

definition process_row :: "world \<Rightarrow> dataframe \<Rightarrow> nat \<Rightarrow> dataframe \<Rightarrow> dataframe" where
  "process_row w df i results_df =
     (case iloc df i ''Company'' of
        Inl e \<Rightarrow> row_error e i results_df
      | Inr company \<Rightarrow>
          (case iloc df i ''Document type'' of
             Inl e \<Rightarrow> row_error e i results_df
           | Inr document_url \<Rightarrow>
               (case scrape w i document_url of
                  Raises e \<Rightarrow> row_error e i results_df
                | Returns None \<Rightarrow> row_failed i results_df
                | Returns (Some result) \<Rightarrow>
                    if result \<noteq> [] then row_found result i results_df
                    else row_failed i results_df)))"

text \<open>\<open>min(max_urls, len(df))\<close>; \<open>range\<close> of a negative number is empty.\<close>

definition urls_to_process :: "int \<Rightarrow> dataframe \<Rightarrow> nat" where
  "urls_to_process max_urls df = nat (min max_urls (int (nrows df)))"

text \<open>The names of the four columns added for the extracted data.\<close>

definition extracted_columns :: "string list" where
  "extracted_columns =
     [''Extracted Signed by'', ''Extracted Signed date'', ''Extracted IP address'',
      ''Extracted Sent by'']"

text \<open>\<open>results_df = df.copy()\<close> and the four assignments of the empty string.\<close>

definition add_extracted_columns :: "dataframe \<Rightarrow> dataframe" where
  "add_extracted_columns df =
     (let results_df = df;
          results_df = set_column ''Extracted Signed by'' (PStr []) results_df;
          results_df = set_column ''Extracted Signed date'' (PStr []) results_df;
          results_df = set_column ''Extracted IP address'' (PStr []) results_df;
          results_df = set_column ''Extracted Sent by'' (PStr []) results_df
      in results_df)"

text \<open>The new columns and the loop \<open>for i in range(urls_to_process)\<close>.\<close>

definition process_table :: "world \<Rightarrow> dataframe \<Rightarrow> int \<Rightarrow> dataframe" where
  "process_table w df max_urls =
     fold (process_row w df) [0..<urls_to_process max_urls df] (add_extracted_columns df)"

text \<open>The result is \<open>None\<close> when the outer handler runs, that is when \<open>to_csv\<close> raises.\<close>

definition process_urls_from_sheet :: "world \<Rightarrow> string \<Rightarrow> int \<Rightarrow> dataframe option" where
  "process_urls_from_sheet w sheet_url max_urls =
     (let df = load_table w sheet_url;
          results_df = process_table w df max_urls
      in if to_csv_ok w then Some results_df else None)"

section \<open>Example inputs\<close>

text \<open>Concrete inputs at which the theorems below are instantiated.\<close>

definition no_service :: "string \<Rightarrow> string \<Rightarrow> completion" where
  "no_service cert sent_by = Api_error"

definition no_key_env :: env where
  "no_key_env = \<lparr>api_key = None, chat_completion = no_service\<rparr>"

definition sentinel_timeline :: string where
  \<open>sentinel_timeline =
     ''<div class="timeline-block"><div class="timeline-title">Sent by <b>Not found</b></div></div>''\<close>

definition sentinel_block :: block where
  "sentinel_block = \<lparr>html = Some sentinel_timeline, title_text = Some ''Sent by Not found''\<rparr>"

definition sentinel_raw :: raw_data where
  "sentinel_raw =
     \<lparr>certificate_html = Some [], timeline_html = Some sentinel_timeline,
      sent_by_blocks = Some [sentinel_block]\<rparr>"

definition smith_timeline :: string where
  \<open>smith_timeline =
     ''<div class="timeline-block"><div class="timeline-title">Sent by John Smith</div></div>''\<close>

definition smith_block :: block where
  "smith_block = \<lparr>html = Some smith_timeline, title_text = Some ''Sent by John Smith''\<rparr>"

definition signed_on_part :: string where
  \<open>signed_on_part =
     ''<div class="certificate-label">Accepted and Signed on</div><div class="certificate-value"> 08 May 2025 </div>''\<close>

definition jane_certificate :: string where
  \<open>jane_certificate =
     ''<div class="certificate-label">Accepted and Signed by</div><div class="certificate-value">Jane Doe</div>''
     @ signed_on_part\<close>

definition smith_raw :: raw_data where
  "smith_raw =
     \<lparr>certificate_html = Some jane_certificate, timeline_html = Some smith_timeline,
      sent_by_blocks = Some [smith_block]\<rparr>"

definition bob_certificate :: string where
  \<open>bob_certificate =
     ''Accepted and Signed by<div class="certificate-value">Bob</div>''
     @ value_open @ ''Jane Doe'' @ div_close\<close>

definition bob_raw :: raw_data where
  "bob_raw =
     \<lparr>certificate_html = Some bob_certificate, timeline_html = Some [], sent_by_blocks = Some []\<rparr>"

definition search_failing_on :: "string \<Rightarrow> rx list \<Rightarrow> string \<Rightarrow> exn + string option" where
  "search_failing_on label p s =
     (if p = certificate_re label then Inl (OtherError ''search failed'') else py_re_search p s)"

definition login_page_with_menu :: page where
  "login_page_with_menu =
     \<lparr>current_url = Inr ''https://betterproposals.io/2/login/'',
      form_login = NoSuchElement, user_menu = Elements 1\<rparr>"

definition view_url :: string where
  "view_url = ''https://betterproposals.io/2/proposals/view?id=2366358''"

definition stuck_browser :: browser where
  "stuck_browser =
     \<lparr>chrome_starts = True, maximize_ok = False, direct_url = Inr view_url,
      login_result = True, navigate_result = True, extracted = Some smith_raw,
      quit_ok = True\<rparr>"

definition example_sheet_url :: string where
  "example_sheet_url = ''https://docs.google.com/spreadsheets/d/1TGjJziI8OTVekpBriyVp/edit?usp=sharing''"

definition collision_df :: dataframe where
  "collision_df =
     [(''Company'', [PStr ''Acme'']),
      (''Document type'', [PStr ''https://betterproposals.io/2/proposals/view?id=1'']),
      (''Extracted Sent by'', [PStr ''Ann''])]"

definition reads_collision :: "string \<Rightarrow> exn + dataframe" where
  "reads_collision url = Inr collision_df"

definition no_result :: "nat \<Rightarrow> pyval \<Rightarrow> row_outcome" where
  "no_result i document_url = Returns None"

definition world_collision :: world where
  "world_collision = \<lparr>read_csv = reads_collision, scrape = no_result, to_csv_ok = True\<rparr>"

definition offline_csv :: "string \<Rightarrow> exn + dataframe" where
  "offline_csv url = Inl (OtherError ''HTTP Error 404: Not Found'')"

definition mixed_scrape :: "nat \<Rightarrow> pyval \<Rightarrow> row_outcome" where
  "mixed_scrape i document_url =
     (if i = 0 then Returns (Some [(''Signed by'', PStr ''Katy Sully''), (''Sent by'', PStr ''John Smith'')])
      else if i = 1 then Returns None
      else Raises (OtherError ''Message: session not created''))"

definition world_offline :: world where
  "world_offline = \<lparr>read_csv = offline_csv, scrape = mixed_scrape, to_csv_ok = True\<rparr>"

section \<open>Lemmas on the pattern tier\<close>

lemma extract_field_Signed_by:
  "extract_field search label ''Signed by'' cert
     [(''Signed by'', PStr a), (''Signed date'', PStr b), (''IP address'', PStr c), (''Sent by'', PStr s)] =
     [(''Signed by'',
       PStr (if py_in label cert
             then (case search (certificate_re label) cert of Inr (Some g) \<Rightarrow> strip g | Inr None \<Rightarrow> a | Inl e \<Rightarrow> a)
             else a)),
      (''Signed date'', PStr b), (''IP address'', PStr c), (''Sent by'', PStr s)]"
  by (simp add: extract_field_def split: sum.split option.split)

lemma extract_field_Signed_date:
  "extract_field search label ''Signed date'' cert
     [(''Signed by'', PStr a), (''Signed date'', PStr b), (''IP address'', PStr c), (''Sent by'', PStr s)] =
     [(''Signed by'', PStr a),
      (''Signed date'',
       PStr (if py_in label cert
             then (case search (certificate_re label) cert of Inr (Some g) \<Rightarrow> strip g | Inr None \<Rightarrow> b | Inl e \<Rightarrow> b)
             else b)),
      (''IP address'', PStr c), (''Sent by'', PStr s)]"
  by (simp add: extract_field_def split: sum.split option.split)

lemma extract_field_IP_address:
  "extract_field search label ''IP address'' cert
     [(''Signed by'', PStr a), (''Signed date'', PStr b), (''IP address'', PStr c), (''Sent by'', PStr s)] =
     [(''Signed by'', PStr a), (''Signed date'', PStr b),
      (''IP address'',
       PStr (if py_in label cert
             then (case search (certificate_re label) cert of Inr (Some g) \<Rightarrow> strip g | Inr None \<Rightarrow> c | Inl e \<Rightarrow> c)
             else c)),
      (''Sent by'', PStr s)]"
  by (simp add: extract_field_def split: sum.split option.split)

lemma sent_by_from_raw_fields:
  "sent_by_from_raw raw
     [(''Signed by'', PStr a), (''Signed date'', PStr b), (''IP address'', PStr c), (''Sent by'', PStr s)] =
     [(''Signed by'', PStr a), (''Signed date'', PStr b), (''IP address'', PStr c),
      (''Sent by'',
       PStr (if s = ''Not found''
             then (case sent_by_blocks raw of
                     None \<Rightarrow> s
                   | Some blocks \<Rightarrow> (case sent_by_from_blocks blocks of None \<Rightarrow> s | Some v \<Rightarrow> v))
             else s))]"
  by (simp add: sent_by_from_raw_def split: option.split)

lemma sent_by_from_timeline_fields:
  "sent_by_from_timeline search timeline
     [(''Signed by'', PStr a), (''Signed date'', PStr b), (''IP address'', PStr c), (''Sent by'', PStr s)] =
     [(''Signed by'', PStr a), (''Signed date'', PStr b), (''IP address'', PStr c),
      (''Sent by'',
       PStr (if s = ''Not found''
             then (case search timeline_re timeline of
                     Inr (Some g) \<Rightarrow> strip g | Inr None \<Rightarrow> s | Inl e \<Rightarrow> s)
             else s))]"
  by (simp add: sent_by_from_timeline_def split: sum.split option.split)

lemma manual_extract_with_fields:
  assumes "certificate_html raw = Some cert" and "timeline_html raw = Some timeline"
  shows "manual_extract_with search raw sent_by =
    Inr [(''Signed by'',
          PStr (if py_in ''Accepted and Signed by'' cert
                then (case search (certificate_re ''Accepted and Signed by'') cert of
                        Inr (Some g) \<Rightarrow> strip g | Inr None \<Rightarrow> ''Not found'' | Inl e \<Rightarrow> ''Not found'')
                else ''Not found'')),
         (''Signed date'',
          PStr (if py_in ''Accepted and Signed on'' cert
                then (case search (certificate_re ''Accepted and Signed on'') cert of
                        Inr (Some g) \<Rightarrow> strip g | Inr None \<Rightarrow> ''Not found'' | Inl e \<Rightarrow> ''Not found'')
                else ''Not found'')),
         (''IP address'',
          PStr (if py_in ''IP Address from signature location'' cert
                then (case search (certificate_re ''IP Address from signature location'') cert of
                        Inr (Some g) \<Rightarrow> strip g | Inr None \<Rightarrow> ''Not found'' | Inl e \<Rightarrow> ''Not found'')
                else ''Not found'')),
         (''Sent by'',
          PStr (let s1 = (if sent_by = ''Not found''
                          then (case sent_by_blocks raw of
                                  None \<Rightarrow> sent_by
                                | Some blocks \<Rightarrow>
                                    (case sent_by_from_blocks blocks of None \<Rightarrow> sent_by | Some v \<Rightarrow> v))
                          else sent_by)
                in if s1 = ''Not found''
                   then (case search timeline_re timeline of
                           Inr (Some g) \<Rightarrow> strip g | Inr None \<Rightarrow> s1 | Inl e \<Rightarrow> s1)
                   else s1))]"
  unfolding manual_extract_with_def Let_def
  by (simp only: assms option.case extract_field_Signed_by extract_field_Signed_date
        extract_field_IP_address sent_by_from_raw_fields sent_by_from_timeline_fields)

lemma split_first_prefix: "prefix p s \<Longrightarrow> split_first p s = Some ([], drop (length p) s)"
  by (cases s) auto

lemma split_first_SomeD: "split_first p s = Some (a, b) \<Longrightarrow> s = a @ p @ b"
proof (induction s arbitrary: a)
  case Nil
  then show ?case by (simp split: if_splits)
next
  case (Cons c s)
  show ?case
  proof (cases "prefix p (c # s)")
    case True
    with Cons.prems have "a = []" "b = drop (length p) (c # s)" by simp_all
    with True show ?thesis by (metis append_Nil append_eq_conv_conj prefix_def)
  next
    case False
    with Cons.prems obtain a' where "split_first p s = Some (a', b)" "a = c # a'"
      by (auto split: option.splits)
    with Cons.IH show ?thesis by simp
  qed
qed

lemma split_first_least:
  "split_first p s = Some (a, b) \<Longrightarrow> s = a' @ p @ b' \<Longrightarrow> length a \<le> length a'"
proof (induction s arbitrary: a a')
  case Nil
  then show ?case by (simp split: if_splits)
next
  case (Cons c s)
  show ?case
  proof (cases "prefix p (c # s)")
    case True
    with Cons.prems(1) have "a = []" by simp
    then show ?thesis by simp
  next
    case False
    with Cons.prems(1) obtain a0 where a0: "split_first p s = Some (a0, b)" "a = c # a0"
      by (auto split: option.splits)
    from False Cons.prems(2) have "a' \<noteq> []" by (auto simp: prefix_def)
    then obtain a1 where a1: "a' = c # a1" "s = a1 @ p @ b'"
      using Cons.prems(2) by (cases a') auto
    from Cons.IH[OF a0(1) a1(2)] a0(2) a1(1) show ?thesis by simp
  qed
qed

lemma split_first_None_iff: "split_first p s = None \<longleftrightarrow> \<not> sublist p s"
proof (induction s)
  case Nil
  then show ?case by simp
next
  case (Cons c s)
  show ?case
  proof (cases "prefix p (c # s)")
    case True
    then show ?thesis by (auto simp: prefix_def sublist_def intro: exI[of _ "[]"])
  next
    case False
    then show ?thesis
      using Cons.IH by (auto simp: sublist_Cons_right split: option.splits)
  qed
qed

lemma py_in_sublist: "py_in p s \<longleftrightarrow> sublist p s"
  by (induction s) (auto simp: sublist_Cons_right)

lemma lazy_capture:
  "rx_match [Dot_star_lazy, Grp_close, Lit C] s (Opened acc) =
     (case split_first C s of None \<Rightarrow> None | Some (v, r) \<Rightarrow> Some (Closed (rev acc @ v)))"
proof (induction s arbitrary: acc)
  case Nil
  then show ?case by simp
next
  case (Cons c s)
  then show ?case by (simp split: option.splits)
qed

lemma split_first_suffix:
  assumes u: "split_first p u = Some (a, r)" and ut: "suffix u t"
  obtains a' r' where "split_first p t = Some (a', r')" and "suffix r r'"
proof -
  from ut obtain x where t: "t = x @ u" by (auto simp: suffix_def)
  from split_first_SomeD[OF u] have u': "u = a @ p @ r" .
  with t have t': "t = (x @ a) @ p @ r" by simp
  then have "sublist p t" by (metis sublist_appendI)
  then obtain a' r' where s: "split_first p t = Some (a', r')"
    using split_first_None_iff[of p t] by (cases "split_first p t") auto
  from split_first_SomeD[OF s] have t'': "t = a' @ p @ r'" .
  from split_first_least[OF s t'] have le: "length a' \<le> length (x @ a)" .
  have "suffix r t" using t' by (auto simp: suffix_def)
  moreover have "suffix r' t" using t'' by (auto simp: suffix_def)
  moreover have "length r \<le> length r'"
  proof -
    have "length t = length (x @ a) + length p + length r" using t' by simp
    moreover have "length t = length a' + length p + length r'" using t'' by simp
    ultimately show ?thesis using le by arith
  qed
  ultimately have "suffix r r'" by (rule suffix_length_suffix)
  with s that show ?thesis by blast
qed

lemma value_after_open_suffix:
  assumes "suffix u t" and "value_after_open t = None"
  shows "value_after_open u = None"
proof (rule ccontr)
  assume "value_after_open u \<noteq> None"
  then obtain a r v w where 1: "split_first value_open u = Some (a, r)"
    and 2: "split_first div_close r = Some (v, w)"
    by (auto simp: value_after_open_def split: option.splits)
  from split_first_suffix[OF 1 assms(1)] obtain a' r'
    where 3: "split_first value_open t = Some (a', r')" and 4: "suffix r r'" by blast
  from split_first_suffix[OF 2 4] obtain v' w'
    where "split_first div_close r' = Some (v', w')" by blast
  with 3 assms(2) show False by (simp add: value_after_open_def)
qed

lemma lazy_open_value:
  "rx_match (Dot_star_lazy # Lit value_open # Grp_open # [Dot_star_lazy, Grp_close, Lit div_close]) s g =
     map_option Closed (value_after_open s)"
proof (induction s arbitrary: g)
  case Nil
  then show ?case
    by (simp add: value_after_open_def lazy_capture split: option.splits)
next
  case (Cons c s)
  show ?case
  proof (cases "prefix value_open (c # s)")
    case True
    note pre = this
    then have sf: "split_first value_open (c # s) = Some ([], drop (length value_open) (c # s))"
      by (rule split_first_prefix)
    show ?thesis
    proof (cases "split_first div_close (drop (length value_open) (c # s))")
      case None
      with sf have "value_after_open (c # s) = None" by (simp add: value_after_open_def)
      moreover from this have "value_after_open s = None"
        by (rule value_after_open_suffix[rotated]) (simp add: suffix_Cons)
      ultimately show ?thesis using pre None Cons.IH
        by (simp add: lazy_capture)
    next
      case (Some vw)
      then show ?thesis using pre sf
        by (cases vw) (simp add: lazy_capture value_after_open_def)
    qed
  next
    case False
    then show ?thesis using Cons.IH
      by (simp add: value_after_open_def split: option.splits)
  qed
qed

lemma rx_match_certificate_re:
  "rx_match (certificate_re label) s Unopened =
     (if prefix label s then map_option Closed (value_after_open (drop (length label) s)) else None)"
  by (simp add: certificate_re_def lazy_open_value)

lemma re_search_certificate_re:
  "re_search (certificate_re label) s = value_after_label label s"
proof (induction s)
  case Nil
  then show ?case
    by (simp add: rx_match_certificate_re value_after_label_def option.map_comp comp_def
          option.map_ident)
next
  case (Cons c s)
  show ?case
  proof (cases "prefix label (c # s)")
    case True
    note pre = this
    then have sf: "split_first label (c # s) = Some ([], drop (length label) (c # s))"
      by (rule split_first_prefix)
    show ?thesis
    proof (cases "value_after_open (drop (length label) (c # s))")
      case None
      have "value_after_label label s = None"
      proof (cases "split_first label s")
        case None
        then show ?thesis by (simp add: value_after_label_def)
      next
        case (Some ab)
        then obtain a b where ab: "split_first label s = Some (a, b)" by (cases ab) auto
        have "suffix s (c # s)" by (simp add: suffix_Cons)
        from split_first_suffix[OF ab this] sf have "suffix b (drop (length label) (c # s))"
          by auto
        from value_after_open_suffix[OF this None] ab show ?thesis
          by (simp add: value_after_label_def)
      qed
      with None pre sf Cons.IH show ?thesis
        by (simp add: rx_match_certificate_re value_after_label_def)
    next
      case (Some v)
      with pre sf show ?thesis
        by (simp add: rx_match_certificate_re value_after_label_def)
    qed
  next
    case False
    then show ?thesis using Cons.IH
      by (simp add: rx_match_certificate_re value_after_label_def split: option.splits)
  qed
qed

lemma manual_extract_fields:
  assumes "certificate_html raw = Some cert" and "timeline_html raw = Some timeline"
  shows "manual_extract raw sent_by =
    Inr [(''Signed by'',
          PStr (case value_after_label ''Accepted and Signed by'' cert of
                  Some g \<Rightarrow> strip g | None \<Rightarrow> ''Not found'')),
         (''Signed date'',
          PStr (case value_after_label ''Accepted and Signed on'' cert of
                  Some g \<Rightarrow> strip g | None \<Rightarrow> ''Not found'')),
         (''IP address'',
          PStr (case value_after_label ''IP Address from signature location'' cert of
                  Some g \<Rightarrow> strip g | None \<Rightarrow> ''Not found'')),
         (''Sent by'',
          PStr (let s1 = (if sent_by = ''Not found''
                          then (case sent_by_blocks raw of
                                  None \<Rightarrow> sent_by
                                | Some blocks \<Rightarrow>
                                    (case sent_by_from_blocks blocks of None \<Rightarrow> sent_by | Some v \<Rightarrow> v))
                          else sent_by)
                in if s1 = ''Not found''
                   then (case re_search timeline_re timeline of Some g \<Rightarrow> strip g | None \<Rightarrow> s1)
                   else s1))]"
proof -
  have label: "(if py_in label cert
                then (case py_re_search (certificate_re label) cert of
                        Inr (Some g) \<Rightarrow> strip g | Inr None \<Rightarrow> ''Not found'' | Inl e \<Rightarrow> ''Not found'')
                else ''Not found'') =
               (case value_after_label label cert of Some g \<Rightarrow> strip g | None \<Rightarrow> ''Not found'')"
    for label
    by (auto simp: py_re_search_def re_search_certificate_re value_after_label_def
          py_in_sublist split_first_None_iff[symmetric] split: option.splits)
  have tl: "(case py_re_search timeline_re timeline of
               Inr (Some g) \<Rightarrow> strip g | Inr None \<Rightarrow> s | Inl e \<Rightarrow> s) =
            (case re_search timeline_re timeline of Some g \<Rightarrow> strip g | None \<Rightarrow> s)" for s
    by (simp add: py_re_search_def split: option.splits)
  show ?thesis
    unfolding manual_extract_def manual_extract_with_fields[OF assms] label tl ..
qed

lemma manual_extract_Sent_by:
  assumes "certificate_html raw = Some cert" and "timeline_html raw = Some timeline"
    and "sent_by \<noteq> ''Not found''"
  shows "get_field (manual_extract raw sent_by) ''Sent by'' = Some (PStr sent_by)"
  by (simp add: manual_extract_fields[OF assms(1,2)] get_field_def assms(3))

lemma manual_extract_Sent_by_sentinel:
  assumes "certificate_html raw = Some cert" and "timeline_html raw = Some timeline"
    and "sent_by_blocks raw = Some blocks" and "sent_by_from_blocks blocks = Some ''Not found''"
  shows "get_field (manual_extract raw ''Not found'') ''Sent by'' =
           Some (PStr (case re_search timeline_re timeline of
                         Some g \<Rightarrow> strip g | None \<Rightarrow> ''Not found''))"
  by (simp add: manual_extract_fields[OF assms(1,2)] get_field_def assms(3,4))

lemma fallback_eq:
  "fallback raw sent_by = manual_extract raw sent_by"
proof (cases "certificate_html raw")
  case None
  then show ?thesis
    by (simp add: fallback_def manual_extract_def manual_extract_with_def)
next
  case (Some cert)
  show ?thesis
  proof (cases "timeline_html raw")
    case None
    with Some show ?thesis
      by (simp add: fallback_def manual_extract_def manual_extract_with_def)
  next
    case (Some timeline)
    with \<open>certificate_html raw = Some cert\<close> show ?thesis
      by (simp add: fallback_def manual_extract_fields)
  qed
qed

section \<open>The sender field\<close>

lemma parse_with_openai_cases:
  assumes "certificate_html raw = Some cert"
  shows "parse_with_openai e raw =
     (if \<not> key_missing e \<and> (\<exists>d. chat_completion e cert (direct_sent_by raw) = Json (PDict d))
      then (case chat_completion e cert (direct_sent_by raw) of
              Json (PDict d) \<Rightarrow> (Inr (AList.update ''Sent by'' (PStr (direct_sent_by raw)) d), 1)
            | other \<Rightarrow> (manual_extract raw (direct_sent_by raw), 1))
      else (manual_extract raw (direct_sent_by raw), if key_missing e then 0 else 1))"
  by (auto simp: parse_with_openai_def Let_def assms fallback_eq
        split: completion.splits pyval.splits)

text \<open>
  Claim C1 as stated fails where the directly derived sender is itself the text
  \<open>Not found\<close>: without an API key \<open>manual_extract\<close> takes that value for the sentinel and
  goes on to the timeline pattern, whose capture is returned instead.
\<close>

theorem parse_with_openai_sent_by_counterexample:
  "sent_by_blocks sentinel_raw = Some [sentinel_block]
   \<and> title_text sentinel_block = Some ''Sent by Not found''
   \<and> strip (replace ''Sent by'' [] ''Sent by Not found'') = ''Not found''
   \<and> key_missing no_key_env
   \<and> get_field (fst (parse_with_openai no_key_env sentinel_raw)) ''Sent by''
       = Some (PStr ''<b>Not found</b>'')"
proof -
  have v: "strip (replace ''Sent by'' [] ''Sent by Not found'') = ''Not found''"
    by code_simp
  have t: "re_search timeline_re sentinel_timeline = Some ''<b>Not found</b>''"
    by (simp add: timeline_re_def sentinel_timeline_def div_close_def isspace_def)
  have s: "strip ''<b>Not found</b>'' = ''<b>Not found</b>''"
    by (simp add: strip_def isspace_def)
  have b: "sent_by_from_blocks [sentinel_block] = Some ''Not found''"
    by (simp add: sentinel_block_def v)
  have k: "key_missing no_key_env"
    by (simp add: key_missing_def no_key_env_def)
  have d: "direct_sent_by sentinel_raw = ''Not found''"
    by (simp add: direct_sent_by_def sentinel_raw_def sentinel_block_def v)
  have c: "certificate_html sentinel_raw = Some []"
    and tl: "timeline_html sentinel_raw = Some sentinel_timeline"
    and sb: "sent_by_blocks sentinel_raw = Some [sentinel_block]"
    by (simp_all add: sentinel_raw_def)
  have "get_field (manual_extract sentinel_raw ''Not found'') ''Sent by''
          = Some (PStr ''<b>Not found</b>'')"
    by (simp add: manual_extract_Sent_by_sentinel[OF c tl sb b] t s)
  then have "get_field (fst (parse_with_openai no_key_env sentinel_raw)) ''Sent by''
          = Some (PStr ''<b>Not found</b>'')"
    by (simp add: parse_with_openai_cases[OF c] k d)
  with v k sb show ?thesis
    by (simp add: sentinel_block_def)
qed

text \<open>
  Claim C1, amended. For a raw extraction whose first \<open>sent_by_blocks\<close> entry has a title
  containing \<open>Sent by\<close>, the \<open>Sent by\<close> field returned by \<open>parse_with_openai\<close> is that
  title with the marker removed and the result stripped: always when the model tier
  succeeds, and on both \<open>manual_extract\<close> paths (no API key, model tier failed) whenever
  that value is not the sentinel \<open>Not found\<close>. When it is the sentinel, \<open>manual_extract\<close>
  returns the stripped capture of the timeline pattern if the pattern matches, and the
  sentinel otherwise.
\<close>

theorem parse_with_openai_sent_by:
  assumes "sent_by_blocks raw = Some (b # bs)"
    and "title_text b = Some t"
    and "py_in ''Sent by'' t"
    and "certificate_html raw = Some cert"
    and "timeline_html raw = Some timeline"
  shows "get_field (fst (parse_with_openai e raw)) ''Sent by'' =
     Some (PStr
       (if strip (replace ''Sent by'' [] t) = ''Not found''
           \<and> (key_missing e
                \<or> (\<forall>d. chat_completion e cert (strip (replace ''Sent by'' [] t)) \<noteq> Json (PDict d)))
        then (case re_search timeline_re timeline of
                Some g \<Rightarrow> strip g
              | None \<Rightarrow> strip (replace ''Sent by'' [] t))
        else strip (replace ''Sent by'' [] t)))"
proof -
  let ?v = "strip (replace ''Sent by'' [] t)"
  have blocks: "sent_by_from_blocks (b # bs) = Some ?v"
    using assms(2,3) by simp
  have direct: "direct_sent_by raw = ?v"
    using assms(2,3) by (simp add: direct_sent_by_def assms(1))
  show ?thesis
  proof (cases "\<not> key_missing e \<and> (\<exists>d. chat_completion e cert ?v = Json (PDict d))")
    case True
    then obtain d where d: "chat_completion e cert ?v = Json (PDict d)" by blast
    with True show ?thesis
      by (simp add: parse_with_openai_cases[OF assms(4)] direct get_field_def update_conv')
  next
    case False
    note pc = parse_with_openai_cases[OF assms(4), of e, unfolded direct]
    have p: "fst (parse_with_openai e raw) = manual_extract raw ?v"
      by (simp only: pc if_not_P[OF False] fst_conv)
    show ?thesis
    proof (cases "?v = ''Not found''")
      case True
      have b': "sent_by_from_blocks (b # bs) = Some ''Not found''"
        by (simp only: blocks True)
      from manual_extract_Sent_by_sentinel[OF assms(4,5,1) b'] False p True show ?thesis
        by (auto split: option.split)
    next
      case False
      with p show ?thesis
        using manual_extract_Sent_by[OF assms(4,5)] by simp
    qed
  qed
qed

text \<open>The amended claim C1 at a title \<open>Sent by John Smith\<close>, without an API key.\<close>

theorem parse_with_openai_sent_by_witness:
  "get_field (fst (parse_with_openai no_key_env smith_raw)) ''Sent by'' = Some (PStr ''John Smith'')"
proof -
  have v: "strip (replace ''Sent by'' [] ''Sent by John Smith'') = ''John Smith''"
    by code_simp
  have h1: "sent_by_blocks smith_raw = Some (smith_block # [])"
    by (simp add: smith_raw_def)
  have h2: "title_text smith_block = Some ''Sent by John Smith''"
    by (simp add: smith_block_def)
  have h3: "py_in ''Sent by'' ''Sent by John Smith''"
    by simp
  have h4: "certificate_html smith_raw = Some jane_certificate"
    by (simp add: smith_raw_def)
  have h5: "timeline_html smith_raw = Some smith_timeline"
    by (simp add: smith_raw_def)
  show ?thesis
    using parse_with_openai_sent_by[OF h1 h2 h3 h4 h5, of no_key_env] by (simp add: v)
qed

section \<open>The certificate fields\<close>

text \<open>
  Claim C2 as stated fails on its first example: a fragment may contain the label followed
  eventually by the element holding \<open>Jane Doe\<close> and still yield another value, because the
  lazy pattern stops at the nearest element of class \<open>certificate-value\<close>.
\<close>

theorem manual_extract_signed_by_counterexample:
  "bob_certificate =
     ''Accepted and Signed by'' @ ''<div class=\"certificate-value\">Bob</div>''
       @ value_open @ ''Jane Doe'' @ div_close
   \<and> py_in ''Accepted and Signed by'' bob_certificate
   \<and> get_field (manual_extract bob_raw ''Not found'') ''Signed by'' = Some (PStr ''Bob'')"
proof -
  have v: "value_after_label ''Accepted and Signed by'' bob_certificate = Some ''Bob''"
    by (simp add: value_after_label_def value_after_open_def bob_certificate_def
          value_open_def div_close_def)
  have s: "strip ''Bob'' = ''Bob''"
    by (simp add: strip_def isspace_def)
  have c: "certificate_html bob_raw = Some bob_certificate"
    and t: "timeline_html bob_raw = Some []"
    by (simp_all add: bob_raw_def)
  have "get_field (manual_extract bob_raw ''Not found'') ''Signed by'' = Some (PStr ''Bob'')"
    by (simp add: manual_extract_fields[OF c t] get_field_def v s)
  moreover have "py_in ''Accepted and Signed by'' bob_certificate"
    by (simp add: bob_certificate_def)
  ultimately show ?thesis
    by (simp add: bob_certificate_def)
qed

text \<open>
  Claim C2, amended. Each of the three certificate fields of \<open>manual_extract\<close> is the
  stripped first group of \<open>re.search\<close> with the field's pattern, \<open>Not found\<close> when there is
  no match; that search returns what the specification describes (the text between the
  nearest value element after the first occurrence of the label and the nearest closing
  tag after it). In particular a fragment in which the nearest \<open>certificate-value\<close> element
  after the first \<open>Accepted and Signed by\<close> holds \<open>Jane Doe\<close> yields \<open>Signed by = Jane Doe\<close>, and
  a fragment without the label \<open>IP Address from signature location\<close> yields
  \<open>IP address = Not found\<close>.
\<close>

theorem manual_extract_certificate_fields:
  assumes "certificate_html raw = Some cert" and "timeline_html raw = Some timeline"
  shows
    "get_field (manual_extract raw sent_by) ''Signed by'' =
       Some (PStr (case re_search (certificate_re ''Accepted and Signed by'') cert of
                     Some g \<Rightarrow> strip g | None \<Rightarrow> ''Not found''))
     \<and> get_field (manual_extract raw sent_by) ''Signed date'' =
       Some (PStr (case re_search (certificate_re ''Accepted and Signed on'') cert of
                     Some g \<Rightarrow> strip g | None \<Rightarrow> ''Not found''))
     \<and> get_field (manual_extract raw sent_by) ''IP address'' =
       Some (PStr (case re_search (certificate_re ''IP Address from signature location'') cert of
                     Some g \<Rightarrow> strip g | None \<Rightarrow> ''Not found''))
     \<and> (\<forall>label. re_search (certificate_re label) cert = value_after_label label cert)
     \<and> (\<forall>before after_label between post.
            split_first ''Accepted and Signed by'' cert = Some (before, after_label)
            \<longrightarrow> split_first value_open after_label = Some (between, ''Jane Doe'' @ div_close @ post)
            \<longrightarrow> get_field (manual_extract raw sent_by) ''Signed by'' = Some (PStr ''Jane Doe''))
     \<and> (\<not> py_in ''IP Address from signature location'' cert
          \<longrightarrow> get_field (manual_extract raw sent_by) ''IP address'' = Some (PStr ''Not found''))"
proof -
  note f = manual_extract_fields[OF assms, of sent_by]
  have 1: "get_field (manual_extract raw sent_by) ''Signed by'' =
       Some (PStr (case re_search (certificate_re ''Accepted and Signed by'') cert of
                     Some g \<Rightarrow> strip g | None \<Rightarrow> ''Not found''))"
    by (simp add: f get_field_def re_search_certificate_re)
  have 2: "get_field (manual_extract raw sent_by) ''Signed date'' =
       Some (PStr (case re_search (certificate_re ''Accepted and Signed on'') cert of
                     Some g \<Rightarrow> strip g | None \<Rightarrow> ''Not found''))"
    by (simp add: f get_field_def re_search_certificate_re)
  have 3: "get_field (manual_extract raw sent_by) ''IP address'' =
       Some (PStr (case re_search (certificate_re ''IP Address from signature location'') cert of
                     Some g \<Rightarrow> strip g | None \<Rightarrow> ''Not found''))"
    by (simp add: f get_field_def re_search_certificate_re)
  have 4: "\<forall>label. re_search (certificate_re label) cert = value_after_label label cert"
    by (simp add: re_search_certificate_re)
  have jane: "split_first div_close (''Jane Doe'' @ div_close @ post) = Some (''Jane Doe'', post)"
    for post
    by (simp add: div_close_def)
  have s: "strip ''Jane Doe'' = ''Jane Doe''"
    by (simp add: strip_def isspace_def)
  have 5: "get_field (manual_extract raw sent_by) ''Signed by'' = Some (PStr ''Jane Doe'')"
    if "split_first ''Accepted and Signed by'' cert = Some (before, after_label)"
      and "split_first value_open after_label = Some (between, ''Jane Doe'' @ div_close @ post)"
    for before after_label between post
  proof -
    have "value_after_label ''Accepted and Signed by'' cert = Some ''Jane Doe''"
      by (simp only: value_after_label_def value_after_open_def that jane option.case prod.case)
    then show ?thesis
      by (simp only: 1 re_search_certificate_re option.case s)
  qed
  have 6: "get_field (manual_extract raw sent_by) ''IP address'' = Some (PStr ''Not found'')"
    if "\<not> py_in ''IP Address from signature location'' cert"
  proof -
    from that have "split_first ''IP Address from signature location'' cert = None"
      by (simp only: split_first_None_iff py_in_sublist not_False_eq_True)
    then have "value_after_label ''IP Address from signature location'' cert = None"
      by (simp only: value_after_label_def option.case)
    then show ?thesis
      by (simp only: 3 re_search_certificate_re option.case)
  qed
  from 1 2 3 4 5 6 show ?thesis by blast
qed

text \<open>The amended claim C2 at a certificate with a signer and a date, and no IP label.\<close>

theorem manual_extract_certificate_fields_witness:
  "get_field (manual_extract smith_raw ''Not found'') ''Signed by'' = Some (PStr ''Jane Doe'')
   \<and> get_field (manual_extract smith_raw ''Not found'') ''IP address'' = Some (PStr ''Not found'')"
proof -
  have c: "certificate_html smith_raw = Some jane_certificate"
    and t: "timeline_html smith_raw = Some smith_timeline"
    by (simp_all add: smith_raw_def)
  have l: "split_first ''Accepted and Signed by'' jane_certificate =
             Some (''<div class=\"certificate-label\">'',
                   ''</div>'' @ value_open @ ''Jane Doe'' @ div_close @ signed_on_part)"
    by (simp add: jane_certificate_def value_open_def div_close_def signed_on_part_def)
  have v: "split_first value_open
               (''</div>'' @ value_open @ ''Jane Doe'' @ div_close @ signed_on_part) =
             Some (''</div>'', ''Jane Doe'' @ div_close @ signed_on_part)"
    by (simp add: value_open_def div_close_def)
  have n: "\<not> py_in ''IP Address from signature location'' jane_certificate"
    by (simp add: jane_certificate_def signed_on_part_def)
  from manual_extract_certificate_fields[OF c t, of "''Not found''"] l v n
  show ?thesis by blast
qed

section \<open>The path without an API key\<close>

text \<open>
  Claim C5. When \<open>openai.api_key\<close> is falsy, \<open>parse_with_openai\<close> sends no request to the
  model service and returns what \<open>manual_extract\<close> returns for the directly derived sender:
  for a raw extraction with its keys, the dictionary with the four keys \<open>Signed by\<close>,
  \<open>Signed date\<close>, \<open>IP address\<close>, \<open>Sent by\<close>.
\<close>

theorem parse_with_openai_no_key:
  assumes "key_missing e"
  shows "snd (parse_with_openai e raw) = 0
     \<and> fst (parse_with_openai e raw) = manual_extract raw (direct_sent_by raw)
     \<and> (certificate_html raw \<noteq> None \<and> timeline_html raw \<noteq> None \<longrightarrow>
          (\<exists>a b c s. fst (parse_with_openai e raw) =
             Inr [(''Signed by'', PStr a), (''Signed date'', PStr b),
                  (''IP address'', PStr c), (''Sent by'', PStr s)]))"
proof -
  have p: "parse_with_openai e raw = (manual_extract raw (direct_sent_by raw), 0)"
  proof (cases "certificate_html raw")
    case None
    then show ?thesis
      by (simp add: parse_with_openai_def manual_extract_def manual_extract_with_def)
  next
    case (Some cert)
    then show ?thesis
      by (simp add: parse_with_openai_def Let_def assms fallback_eq)
  qed
  have "\<exists>a b c s. manual_extract raw (direct_sent_by raw) =
             Inr [(''Signed by'', PStr a), (''Signed date'', PStr b),
                  (''IP address'', PStr c), (''Sent by'', PStr s)]"
    if "certificate_html raw \<noteq> None" and "timeline_html raw \<noteq> None"
  proof -
    from that obtain cert timeline
      where "certificate_html raw = Some cert" and "timeline_html raw = Some timeline"
      by auto
    from manual_extract_fields[OF this] show ?thesis by blast
  qed
  with p show ?thesis by simp
qed

text \<open>Claim C5 at an environment without a key.\<close>

theorem parse_with_openai_no_key_witness:
  "snd (parse_with_openai no_key_env smith_raw) = 0
   \<and> fst (parse_with_openai no_key_env smith_raw) =
       Inr [(''Signed by'', PStr ''Jane Doe''), (''Signed date'', PStr ''08 May 2025''),
            (''IP address'', PStr ''Not found''), (''Sent by'', PStr ''John Smith'')]"
proof -
  have k: "key_missing no_key_env"
    by (simp add: key_missing_def no_key_env_def)
  have v: "strip (replace ''Sent by'' [] ''Sent by John Smith'') = ''John Smith''"
    by code_simp
  have d: "direct_sent_by smith_raw = ''John Smith''"
    by (simp add: direct_sent_by_def smith_raw_def smith_block_def v)
  have m: "manual_extract smith_raw ''John Smith'' =
       Inr [(''Signed by'', PStr ''Jane Doe''), (''Signed date'', PStr ''08 May 2025''),
            (''IP address'', PStr ''Not found''), (''Sent by'', PStr ''John Smith'')]"
    by code_simp
  from parse_with_openai_no_key[OF k, of smith_raw] d m show ?thesis by simp
qed

section \<open>The pattern tier does not raise\<close>

text \<open>
  Claim C8. For a raw extraction with the keys \<open>certificate_html\<close>, \<open>timeline_html\<close> and
  \<open>sent_by_blocks\<close>, \<open>manual_extract\<close> returns (it does not raise) a dictionary with exactly
  the four keys, each holding a string; this holds for every behaviour of the pattern
  search, a raising one included. Each field depends on the search only through the
  search of its own pattern: changing (or failing) the search of another pattern leaves
  it as it is.
\<close>

theorem manual_extract_never_raises:
  assumes "certificate_html raw = Some cert"
    and "timeline_html raw = Some timeline"
    and "sent_by_blocks raw = Some blocks"
  shows "(\<exists>a b c s. manual_extract_with search raw sent_by =
            Inr [(''Signed by'', PStr a), (''Signed date'', PStr b),
                 (''IP address'', PStr c), (''Sent by'', PStr s)])
     \<and> (\<exists>a b c s. manual_extract raw sent_by =
            Inr [(''Signed by'', PStr a), (''Signed date'', PStr b),
                 (''IP address'', PStr c), (''Sent by'', PStr s)])
     \<and> (\<forall>search'.
            search' (certificate_re ''Accepted and Signed by'') cert
              = search (certificate_re ''Accepted and Signed by'') cert
            \<longrightarrow> get_field (manual_extract_with search' raw sent_by) ''Signed by''
                = get_field (manual_extract_with search raw sent_by) ''Signed by'')
     \<and> (\<forall>search'.
            search' (certificate_re ''Accepted and Signed on'') cert
              = search (certificate_re ''Accepted and Signed on'') cert
            \<longrightarrow> get_field (manual_extract_with search' raw sent_by) ''Signed date''
                = get_field (manual_extract_with search raw sent_by) ''Signed date'')
     \<and> (\<forall>search'.
            search' (certificate_re ''IP Address from signature location'') cert
              = search (certificate_re ''IP Address from signature location'') cert
            \<longrightarrow> get_field (manual_extract_with search' raw sent_by) ''IP address''
                = get_field (manual_extract_with search raw sent_by) ''IP address'')
     \<and> (\<forall>search'.
            search' timeline_re timeline = search timeline_re timeline
            \<longrightarrow> get_field (manual_extract_with search' raw sent_by) ''Sent by''
                = get_field (manual_extract_with search raw sent_by) ''Sent by'')"
proof -
  note f = manual_extract_with_fields[OF assms(1,2)]
  have 1: "\<exists>a b c s. manual_extract_with srch raw sent_by =
            Inr [(''Signed by'', PStr a), (''Signed date'', PStr b),
                 (''IP address'', PStr c), (''Sent by'', PStr s)]" for srch
    using f[of srch sent_by] by blast
  have 2: "get_field (manual_extract_with search' raw sent_by) ''Signed by''
            = get_field (manual_extract_with search raw sent_by) ''Signed by''"
    if "search' (certificate_re ''Accepted and Signed by'') cert
          = search (certificate_re ''Accepted and Signed by'') cert" for search'
    by (simp add: f get_field_def that)
  have 3: "get_field (manual_extract_with search' raw sent_by) ''Signed date''
            = get_field (manual_extract_with search raw sent_by) ''Signed date''"
    if "search' (certificate_re ''Accepted and Signed on'') cert
          = search (certificate_re ''Accepted and Signed on'') cert" for search'
    by (simp add: f get_field_def that)
  have 4: "get_field (manual_extract_with search' raw sent_by) ''IP address''
            = get_field (manual_extract_with search raw sent_by) ''IP address''"
    if "search' (certificate_re ''IP Address from signature location'') cert
          = search (certificate_re ''IP Address from signature location'') cert" for search'
    by (simp add: f get_field_def that)
  have 5: "get_field (manual_extract_with search' raw sent_by) ''Sent by''
            = get_field (manual_extract_with search raw sent_by) ''Sent by''"
    if "search' timeline_re timeline = search timeline_re timeline" for search'
    by (simp add: f get_field_def that Let_def)
  from 1[of search] 1[of py_re_search] 2 3 4 5 show ?thesis
    unfolding manual_extract_def by blast
qed

text \<open>
  Claim C8 at a search that raises on the pattern of the signed date: the signer is
  derived all the same.
\<close>

theorem manual_extract_never_raises_witness:
  "(\<exists>a b c s. manual_extract_with (search_failing_on ''Accepted and Signed on'') smith_raw
                 ''Not found'' =
            Inr [(''Signed by'', PStr a), (''Signed date'', PStr b),
                 (''IP address'', PStr c), (''Sent by'', PStr s)])
   \<and> get_field (manual_extract_with (search_failing_on ''Accepted and Signed on'') smith_raw
                   ''Not found'') ''Signed by'' = Some (PStr ''Jane Doe'')"
proof -
  have c: "certificate_html smith_raw = Some jane_certificate"
    and t: "timeline_html smith_raw = Some smith_timeline"
    and b: "sent_by_blocks smith_raw = Some [smith_block]"
    by (simp_all add: smith_raw_def)
  have same: "py_re_search (certificate_re ''Accepted and Signed by'') jane_certificate
      = search_failing_on ''Accepted and Signed on'' (certificate_re ''Accepted and Signed by'')
          jane_certificate"
    by (simp add: search_failing_on_def certificate_re_def)
  have m: "get_field (manual_extract_with py_re_search smith_raw ''Not found'') ''Signed by''
             = Some (PStr ''Jane Doe'')"
    by code_simp
  from manual_extract_never_raises[OF c t b,
      of "search_failing_on ''Accepted and Signed on''" "''Not found''"] same m
  show ?thesis by metis
qed

section \<open>The authentication check is first-match-wins\<close>

text \<open>
  Claim C6. For a current URL containing \<open>proposals/view\<close> or \<open>dashboard\<close> the check returns
  \<open>True\<close> and performs no DOM probe. Otherwise, for a URL containing \<open>/login/\<close>, it returns
  \<open>False\<close> when the element \<open>form_login\<close> is found and, when it is not found, \<open>True\<close> if a
  \<open>user-menu\<close> element is present and \<open>False\<close> if not. For any other URL it returns \<open>True\<close>
  exactly when a \<open>user-menu\<close> element is present.
\<close>

theorem check_authentication_status_policy:
  assumes "current_url p = Inr url"
  shows "(py_in ''proposals/view'' url \<or> py_in ''dashboard'' url
            \<longrightarrow> check_authentication_status p = (Inr True, []))
     \<and> (\<not> py_in ''proposals/view'' url \<and> \<not> py_in ''dashboard'' url \<and> py_in ''/login/'' url
            \<longrightarrow> (form_login p = Found \<longrightarrow> fst (check_authentication_status p) = Inr False)
              \<and> (form_login p = NoSuchElement
                    \<longrightarrow> fst (check_authentication_status p)
                          = Inr (\<exists>n. 0 < n \<and> user_menu p = Elements n)))
     \<and> (\<not> py_in ''proposals/view'' url \<and> \<not> py_in ''dashboard'' url \<and> \<not> py_in ''/login/'' url
            \<longrightarrow> fst (check_authentication_status p)
                  = Inr (\<exists>n. 0 < n \<and> user_menu p = Elements n))"
  by (cases "user_menu p") (auto simp: check_authentication_status_def assms)

text \<open>Claim C6 on the login URL, with no login form and one \<open>user-menu\<close> element.\<close>

theorem check_authentication_status_policy_witness:
  "fst (check_authentication_status login_page_with_menu) = Inr True"
proof -
  have u: "current_url login_page_with_menu = Inr ''https://betterproposals.io/2/login/''"
    and f: "form_login login_page_with_menu = NoSuchElement"
    and m: "user_menu login_page_with_menu = Elements 1"
    by (simp_all add: login_page_with_menu_def)
  have a: "\<not> py_in ''proposals/view'' ''https://betterproposals.io/2/login/''"
    and b: "\<not> py_in ''dashboard'' ''https://betterproposals.io/2/login/''"
    and c: "py_in ''/login/'' ''https://betterproposals.io/2/login/''"
    by simp_all
  from check_authentication_status_policy[OF u] a b c f m show ?thesis by simp
qed

section \<open>Teardown on the exit paths of \<open>run\<close>\<close>

text \<open>
  Once \<open>setup_driver\<close> has succeeded, every exit path of \<open>run\<close> calls \<open>cleanup\<close> exactly
  once, as its last action, and a failing \<open>quit\<close> is swallowed.
\<close>

lemma run_cleanup_after_setup:
  assumes "chrome_starts b" and "maximize_ok b"
  shows "events (snd (run e b s)) =
           events s @ [Chrome_started, Cleanup_called, if quit_ok b then Driver_quit else Quit_failed]
     \<and> session_open (snd (run e b s)) = (\<not> quit_ok b)"
  by (simp add: run_def setup_driver_def cleanup_def Let_def assms
        split: option.split sum.split)

text \<open>
  Claim C7 (every exit path of \<open>run\<close> tears the session down through \<open>cleanup\<close>) fails on
  the first failure branch: when \<open>setup_driver\<close> returns \<open>False\<close>, \<open>run\<close> returns without
  calling \<open>cleanup\<close>. Where the browser had started and \<open>maximize_window\<close> raised, the
  session stays open.
\<close>

theorem run_setup_failure_skips_cleanup:
  "fst (run no_key_env stuck_browser new_scraper) = None
   \<and> session_open (snd (run no_key_env stuck_browser new_scraper))
   \<and> Cleanup_called \<notin> set (events (snd (run no_key_env stuck_browser new_scraper)))"
  by (simp add: run_def setup_driver_def stuck_browser_def new_scraper_def)

section \<open>Lemmas on tables and the batch loop\<close>


lemma map_of_at_set:
  "map_of (at_set i name v df) c =
     (if c = name then map_option (\<lambda>col. col[i := v]) (map_of df c) else map_of df c)"
  by (simp add: at_set_def map_of_map_entry split: option.split)

lemma cell_at_set:
  "cell (at_set i name v df) c j =
     (if c = name \<and> j = i \<and> cell df c j \<noteq> None then Some v else cell df c j)"
  by (auto simp: cell_def map_of_at_set split: option.splits)

lemma nrows_set_column: "nrows (set_column name v df) = nrows df"
  by (cases df) (auto simp: set_column_def nrows_def)


lemma map_of_set_column:
  "map_of (set_column name v df) c =
     (if c = name then Some (replicate (nrows df) v) else map_of df c)"
  by (simp add: set_column_def update_conv')

lemma nrows_add_extracted_columns: "nrows (add_extracted_columns df) = nrows df"
  by (simp add: add_extracted_columns_def Let_def nrows_set_column)

lemma map_of_add_extracted_columns:
  "map_of (add_extracted_columns df) c =
     (if c \<in> set extracted_columns then Some (replicate (nrows df) (PStr [])) else map_of df c)"
  by (simp add: add_extracted_columns_def Let_def map_of_set_column nrows_set_column
        extracted_columns_def)


lemma cell_at_set_miss:
  "c \<noteq> name \<or> j \<noteq> i \<Longrightarrow> cell (at_set i name v df) c j = cell df c j"
  by (auto simp: cell_at_set)

lemma cell_at_set_hit:
  "cell df name i \<noteq> None \<Longrightarrow> cell (at_set i name v df) name i = Some v"
  by (auto simp: cell_at_set)

lemma cell_at_set_None:
  "cell (at_set i name v df) c j = None \<longleftrightarrow> cell df c j = None"
  by (auto simp: cell_at_set)

lemma cell_at_set_cong:
  "cell r c j = cell r' c j \<Longrightarrow> cell (at_set i name v r) c j = cell (at_set i name v r') c j"
  by (auto simp: cell_at_set)

lemma writes_Cons:
  "fold (\<lambda>(n, v). at_set i n v) ((n, v) # nvs) r = fold (\<lambda>(n, v). at_set i n v) nvs (at_set i n v r)"
  by simp

lemma writes_other_row:
  "j \<noteq> i \<Longrightarrow> cell (fold (\<lambda>(n, v). at_set i n v) nvs r) c j = cell r c j"
proof (induction nvs arbitrary: r)
  case Nil
  then show ?case by simp
next
  case (Cons nv nvs)
  obtain n v where nv: "nv = (n, v)" by (cases nv)
  show ?case
    unfolding nv writes_Cons Cons.IH[OF Cons.prems]
    using Cons.prems by (simp add: cell_at_set_miss)
qed

lemma writes_None:
  "cell (fold (\<lambda>(n, v). at_set i n v) nvs r) c j = None \<longleftrightarrow> cell r c j = None"
proof (induction nvs arbitrary: r)
  case Nil
  then show ?case by simp
next
  case (Cons nv nvs)
  obtain n v where nv: "nv = (n, v)" by (cases nv)
  show ?case
    unfolding nv writes_Cons Cons.IH by (rule cell_at_set_None)
qed

lemma writes_map_of:
  "c \<notin> fst ` set nvs \<Longrightarrow> map_of (fold (\<lambda>(n, v). at_set i n v) nvs r) c = map_of r c"
proof (induction nvs arbitrary: r)
  case Nil
  then show ?case by simp
next
  case (Cons nv nvs)
  obtain n v where nv: "nv = (n, v)" by (cases nv)
  from Cons.prems nv have 1: "c \<notin> fst ` set nvs" and 2: "c \<noteq> n" by auto
  show ?case
    unfolding nv writes_Cons Cons.IH[OF 1] using 2 by (simp add: map_of_at_set)
qed


lemma writes_cong:
  "cell r c j = cell r' c j \<Longrightarrow>
   cell (fold (\<lambda>(n, v). at_set i n v) nvs r) c j = cell (fold (\<lambda>(n, v). at_set i n v) nvs r') c j"
proof (induction nvs arbitrary: r r')
  case Nil
  then show ?case by simp
next
  case (Cons nv nvs)
  obtain n v where nv: "nv = (n, v)" by (cases nv)
  from Cons.prems have "cell (at_set i n v r) c j = cell (at_set i n v r') c j"
    by (rule cell_at_set_cong)
  from Cons.IH[OF this] show ?case unfolding nv writes_Cons .
qed

lemma writes_same:
  assumes "c \<in> fst ` set nvs" and "cell r c i \<noteq> None" and "cell r' c i \<noteq> None"
  shows "cell (fold (\<lambda>(n, v). at_set i n v) nvs r) c i
       = cell (fold (\<lambda>(n, v). at_set i n v) nvs r') c i"
  using assms
proof (induction nvs arbitrary: r r')
  case Nil
  then show ?case by simp
next
  case (Cons nv nvs)
  obtain n v where nv: "nv = (n, v)" by (cases nv)
  show ?case
  proof (cases "c = n")
    case True
    with Cons.prems(2,3)
    have "cell (at_set i n v r) c i = cell (at_set i n v r') c i"
      by (simp add: cell_at_set_hit)
    from writes_cong[OF this] show ?thesis unfolding nv writes_Cons .
  next
    case False
    with Cons.prems(1) nv have 1: "c \<in> fst ` set nvs" by auto
    have 2: "cell (at_set i n v r) c i \<noteq> None" and 3: "cell (at_set i n v r') c i \<noteq> None"
      using Cons.prems(2,3) by (simp_all add: cell_at_set_None)
    from Cons.IH[OF 1 2 3] show ?thesis unfolding nv writes_Cons .
  qed
qed

lemma row_error_writes:
  "row_error e i r = fold (\<lambda>(n, v). at_set i n v)
     [(''Extracted Signed by'', PStr (''Error: '' @ exn_str e)),
      (''Extracted Signed date'', PStr ''Error''),
      (''Extracted IP address'', PStr ''Error''),
      (''Extracted Sent by'', PStr ''Error'')] r"
  by (simp only: row_error_def Let_def fold_simps case_prod_conv)

lemma row_failed_writes:
  "row_failed i r = fold (\<lambda>(n, v). at_set i n v)
     [(''Extracted Signed by'', PStr ''Error''),
      (''Extracted Signed date'', PStr ''Error''),
      (''Extracted IP address'', PStr ''Error''),
      (''Extracted Sent by'', PStr ''Error'')] r"
  by (simp only: row_failed_def Let_def fold_simps case_prod_conv)

lemma row_found_writes:
  "row_found d i r = fold (\<lambda>(n, v). at_set i n v)
     [(''Extracted Signed by'', dict_get d ''Signed by'' (PStr ''Not found'')),
      (''Extracted Signed date'', dict_get d ''Signed date'' (PStr ''Not found'')),
      (''Extracted IP address'', dict_get d ''IP address'' (PStr ''Not found'')),
      (''Extracted Sent by'', dict_get d ''Sent by'' (PStr ''Not found''))] r"
  by (simp only: row_found_def Let_def fold_simps case_prod_conv)

lemma process_row_writes:
  "\<exists>nvs. map fst nvs = extracted_columns
      \<and> (\<forall>r. process_row w df i r = fold (\<lambda>(n, v). at_set i n v) nvs r)"
proof -
  have e: "\<exists>nvs. map fst nvs = extracted_columns
      \<and> (\<forall>r. row_error e i r = fold (\<lambda>(n, v). at_set i n v) nvs r)" for e
    unfolding row_error_writes extracted_columns_def
    by (rule exI[of _ "[(''Extracted Signed by'', PStr (''Error: '' @ exn_str e)),
      (''Extracted Signed date'', PStr ''Error''),
      (''Extracted IP address'', PStr ''Error''),
      (''Extracted Sent by'', PStr ''Error'')]"]) simp
  have f: "\<exists>nvs. map fst nvs = extracted_columns
      \<and> (\<forall>r. row_failed i r = fold (\<lambda>(n, v). at_set i n v) nvs r)"
    unfolding row_failed_writes extracted_columns_def
    by (rule exI[of _ "[(''Extracted Signed by'', PStr ''Error''),
      (''Extracted Signed date'', PStr ''Error''),
      (''Extracted IP address'', PStr ''Error''),
      (''Extracted Sent by'', PStr ''Error'')]"]) simp
  have g: "\<exists>nvs. map fst nvs = extracted_columns
      \<and> (\<forall>r. row_found d i r = fold (\<lambda>(n, v). at_set i n v) nvs r)" for d
    unfolding row_found_writes extracted_columns_def
    by (rule exI[of _ "[(''Extracted Signed by'', dict_get d ''Signed by'' (PStr ''Not found'')),
      (''Extracted Signed date'', dict_get d ''Signed date'' (PStr ''Not found'')),
      (''Extracted IP address'', dict_get d ''IP address'' (PStr ''Not found'')),
      (''Extracted Sent by'', dict_get d ''Sent by'' (PStr ''Not found''))]"]) simp
  show ?thesis
  proof (cases "iloc df i ''Company''")
    case (Inl ex)
    then show ?thesis using e[of ex] by (simp only: process_row_def sum.case)
  next
    case company: (Inr company)
    show ?thesis
    proof (cases "iloc df i ''Document type''")
      case (Inl ex)
      with company show ?thesis using e[of ex] by (simp only: process_row_def sum.case)
    next
      case url: (Inr document_url)
      show ?thesis
      proof (cases "scrape w i document_url")
        case (Raises ex)
        with company url show ?thesis using e[of ex]
          by (simp only: process_row_def sum.case row_outcome.case)
      next
        case (Returns result)
        show ?thesis
        proof (cases result)
          case None
          with company url Returns show ?thesis using f
            by (simp only: process_row_def sum.case row_outcome.case option.case)
        next
          case (Some d)
          show ?thesis
          proof (cases "d = []")
            case True
            with company url Returns Some show ?thesis using f
              by (simp only: process_row_def sum.case row_outcome.case option.case
                    not_not if_False simp_thms)
          next
            case False
            with company url Returns Some show ?thesis using g[of d]
              by (simp only: process_row_def sum.case row_outcome.case option.case if_True
                    simp_thms)
          qed
        qed
      qed
    qed
  qed
qed


lemma map_of_process_row:
  assumes "c \<notin> set extracted_columns"
  shows "map_of (process_row w df i r) c = map_of r c"
proof -
  from process_row_writes[of w df i] obtain nvs
    where k: "map fst nvs = extracted_columns"
      and p: "\<forall>r. process_row w df i r = fold (\<lambda>(n, v). at_set i n v) nvs r" by blast
  from assms k have "c \<notin> fst ` set nvs" by (metis set_map)
  with p show ?thesis by (simp add: writes_map_of)
qed

lemma cell_process_row_other:
  assumes "j \<noteq> i"
  shows "cell (process_row w df i r) c j = cell r c j"
proof -
  from process_row_writes[of w df i] obtain nvs
    where "\<forall>r. process_row w df i r = fold (\<lambda>(n, v). at_set i n v) nvs r" by blast
  with assms show ?thesis by (simp add: writes_other_row)
qed

lemma cell_process_row_None:
  "cell (process_row w df i r) c j = None \<longleftrightarrow> cell r c j = None"
proof -
  from process_row_writes[of w df i] obtain nvs
    where "\<forall>r. process_row w df i r = fold (\<lambda>(n, v). at_set i n v) nvs r" by blast
  then show ?thesis by (simp only: writes_None)
qed

lemma cell_process_row_same:
  assumes "c \<in> set extracted_columns" and "cell r c i \<noteq> None" and "cell r' c i \<noteq> None"
  shows "cell (process_row w df i r) c i = cell (process_row w df i r') c i"
proof -
  from process_row_writes[of w df i] obtain nvs
    where k: "map fst nvs = extracted_columns"
      and p: "\<forall>r. process_row w df i r = fold (\<lambda>(n, v). at_set i n v) nvs r" by blast
  from assms(1) k have "c \<in> fst ` set nvs" by (metis set_map)
  from writes_same[OF this assms(2,3)] p show ?thesis by simp
qed


lemma map_of_fold_process_row:
  "c \<notin> set extracted_columns \<Longrightarrow> map_of (fold (process_row w df) rows r) c = map_of r c"
  by (induction rows arbitrary: r) (simp_all add: map_of_process_row)

lemma cell_fold_process_row_other:
  "j \<notin> set rows \<Longrightarrow> cell (fold (process_row w df) rows r) c j = cell r c j"
  by (induction rows arbitrary: r) (simp_all add: cell_process_row_other)

lemma cell_fold_process_row_at:
  assumes "distinct rows" and "j \<in> set rows" and "c \<in> set extracted_columns"
    and "cell r c j \<noteq> None"
  shows "cell (fold (process_row w df) rows r) c j = cell (process_row w df j r) c j"
  using assms
proof (induction rows arbitrary: r)
  case Nil
  then show ?case by simp
next
  case (Cons i rows)
  show ?case
  proof (cases "j = i")
    case True
    with Cons.prems(1) have "j \<notin> set rows" by simp
    with True show ?thesis by (simp add: cell_fold_process_row_other)
  next
    case False
    with Cons.prems have j: "j \<in> set rows" and d: "distinct rows" by simp_all
    have e: "cell (process_row w df i r) c j \<noteq> None"
      using Cons.prems(4) by (simp add: cell_process_row_None)
    have "cell (fold (process_row w df) rows (process_row w df i r)) c j
            = cell (process_row w df j (process_row w df i r)) c j"
      by (rule Cons.IH[OF d j Cons.prems(3) e])
    also have "\<dots> = cell (process_row w df j r) c j"
      by (rule cell_process_row_same[OF Cons.prems(3) e Cons.prems(4)])
    finally show ?thesis by simp
  qed
qed

lemma urls_to_process_le: "urls_to_process max_urls df \<le> nrows df"
  by (simp add: urls_to_process_def)

lemma cell_add_extracted_columns:
  "cell (add_extracted_columns df) c j =
     (if c \<in> set extracted_columns then (if j < nrows df then Some (PStr []) else None)
      else cell df c j)"
  by (simp add: cell_def map_of_add_extracted_columns)

lemma cell_process_table:
  "cell (process_table w df max_urls) c j =
     (if c \<in> set extracted_columns \<and> j < urls_to_process max_urls df
      then cell (process_row w df j (add_extracted_columns df)) c j
      else cell (add_extracted_columns df) c j)"
proof (cases "c \<in> set extracted_columns")
  case False
  then show ?thesis
    by (simp add: process_table_def cell_def map_of_fold_process_row)
next
  case c: True
  show ?thesis
  proof (cases "j < urls_to_process max_urls df")
    case True
    with urls_to_process_le[of max_urls df] have "j < nrows df" by simp
    with c have "cell (add_extracted_columns df) c j \<noteq> None"
      by (simp add: cell_add_extracted_columns)
    with c True show ?thesis
      by (simp add: process_table_def cell_fold_process_row_at)
  next
    case False
    then show ?thesis
      by (simp add: process_table_def cell_fold_process_row_other)
  qed
qed








lemma process_urls_from_sheet_Some:
  "process_urls_from_sheet w sheet_url max_urls = Some out \<Longrightarrow>
   out = process_table w (load_table w sheet_url) max_urls"
  by (simp add: process_urls_from_sheet_def Let_def split: if_splits)



section \<open>The output table\<close>




lemma writes_cell_untouched:
  assumes "c \<notin> fst ` set nvs"
  shows "cell (fold (\<lambda>(n, v). at_set i n v) nvs r) c j = cell r c j"
  by (simp add: cell_def writes_map_of[OF assms])

lemma writes_cell_written:
  assumes "distinct (map fst nvs)" and "(c, v) \<in> set nvs" and "cell r c i \<noteq> None"
  shows "cell (fold (\<lambda>(n, v). at_set i n v) nvs r) c i = Some v"
  using assms
proof (induction nvs arbitrary: r)
  case Nil
  then show ?case by simp
next
  case (Cons nv nvs)
  obtain n v0 where nv: "nv = (n, v0)" by (cases nv)
  show ?case
  proof (cases "c = n")
    case True
    from Cons.prems(1) nv have n: "n \<notin> fst ` set nvs" by simp
    with Cons.prems(2) nv True have v: "v = v0" by force
    from n True have "c \<notin> fst ` set nvs" by simp
    from writes_cell_untouched[OF this] Cons.prems(3) True v show ?thesis
      unfolding nv writes_Cons by (simp add: cell_at_set_hit)
  next
    case False
    with Cons.prems(2) nv have 1: "(c, v) \<in> set nvs" by auto
    from Cons.prems(1) have 2: "distinct (map fst nvs)" by simp
    have 3: "cell (at_set i n v0 r) c i \<noteq> None"
      using Cons.prems(3) by (simp add: cell_at_set_None)
    from Cons.IH[OF 2 1 3] show ?thesis unfolding nv writes_Cons .
  qed
qed

lemma cell_row_failed:
  assumes "c \<in> set extracted_columns" and "cell r c i \<noteq> None"
  shows "cell (row_failed i r) c i = Some (PStr ''Error'')"
proof -
  have "(c, PStr ''Error'') \<in> set [(''Extracted Signed by'', PStr ''Error''),
      (''Extracted Signed date'', PStr ''Error''),
      (''Extracted IP address'', PStr ''Error''),
      (''Extracted Sent by'', PStr ''Error'')]"
    using assms(1) unfolding extracted_columns_def by auto
  then show ?thesis
    unfolding row_failed_writes
    by (rule writes_cell_written[rotated]) (simp_all add: assms(2))
qed

lemma cell_row_error:
  assumes "c \<in> set extracted_columns" and "cell r c i \<noteq> None"
  shows "cell (row_error e i r) c i =
           Some (PStr (if c = ''Extracted Signed by'' then ''Error: '' @ exn_str e else ''Error''))"
proof -
  have "(c, PStr (if c = ''Extracted Signed by'' then ''Error: '' @ exn_str e else ''Error''))
      \<in> set [(''Extracted Signed by'', PStr (''Error: '' @ exn_str e)),
      (''Extracted Signed date'', PStr ''Error''),
      (''Extracted IP address'', PStr ''Error''),
      (''Extracted Sent by'', PStr ''Error'')]"
    using assms(1) unfolding extracted_columns_def by auto
  then show ?thesis
    unfolding row_error_writes
    by (rule writes_cell_written[rotated]) (simp_all add: assms(2))
qed

lemma cell_processed_row:
  assumes "c \<in> set extracted_columns" and "i < urls_to_process max_urls df"
  shows "cell (process_table w df max_urls) c i
           = cell (process_row w df i (add_extracted_columns df)) c i"
    and "cell (add_extracted_columns df) c i \<noteq> None"
proof -
  show "cell (process_table w df max_urls) c i
           = cell (process_row w df i (add_extracted_columns df)) c i"
    using assms by (simp add: cell_process_table)
  from assms(2) urls_to_process_le[of max_urls df] have "i < nrows df" by simp
  with assms(1) show "cell (add_extracted_columns df) c i \<noteq> None"
    by (simp add: cell_add_extracted_columns)
qed

lemma load_table_cong: "read_csv w' = read_csv w \<Longrightarrow> load_table w' sheet_url = load_table w sheet_url"
  by (simp add: load_table_def read_google_sheet_def download_google_sheet_def)

lemma process_row_cong:
  "(\<forall>u. scrape w' j u = scrape w j u) \<Longrightarrow> process_row w' df j r = process_row w df j r"
  by (simp add: process_row_def split: sum.split)

section \<open>Failed rows\<close>

text \<open>
  Claim C4. For a processed row \<open>i\<close> (below the cap): when \<open>scraper.run()\<close> returns a falsy
  result, the four extracted cells of row \<open>i\<close> are \<open>Error\<close>; when an exception leaves the
  per-row \<open>try\<close> (reading the row, the scraper, or a later statement), the first extracted
  cell is \<open>Error: \<close> followed by the message and the other three are \<open>Error\<close>. The other
  rows are unaffected: whatever the scrape of row \<open>i\<close> does, every cell of every other row
  of the output is the same.
\<close>

theorem process_urls_from_sheet_failed_row:
  assumes "load_table w sheet_url = df"
    and "process_urls_from_sheet w sheet_url max_urls = Some out"
    and "i < urls_to_process max_urls df"
  shows "(\<forall>company document_url.
            iloc df i ''Company'' = Inr company
            \<longrightarrow> iloc df i ''Document type'' = Inr document_url
            \<longrightarrow> scrape w i document_url = Returns None
                \<or> scrape w i document_url = Returns (Some [])
            \<longrightarrow> (\<forall>c\<in>set extracted_columns. cell out c i = Some (PStr ''Error'')))
     \<and> (\<forall>e. iloc df i ''Company'' = Inl e
              \<or> (\<exists>company. iloc df i ''Company'' = Inr company
                    \<and> iloc df i ''Document type'' = Inl e)
              \<or> (\<exists>company document_url. iloc df i ''Company'' = Inr company
                    \<and> iloc df i ''Document type'' = Inr document_url
                    \<and> scrape w i document_url = Raises e)
            \<longrightarrow> cell out ''Extracted Signed by'' i = Some (PStr (''Error: '' @ exn_str e))
              \<and> cell out ''Extracted Signed date'' i = Some (PStr ''Error'')
              \<and> cell out ''Extracted IP address'' i = Some (PStr ''Error'')
              \<and> cell out ''Extracted Sent by'' i = Some (PStr ''Error''))
     \<and> (\<forall>w' out'.
            read_csv w' = read_csv w
            \<longrightarrow> (\<forall>j u. j \<noteq> i \<longrightarrow> scrape w' j u = scrape w j u)
            \<longrightarrow> process_urls_from_sheet w' sheet_url max_urls = Some out'
            \<longrightarrow> (\<forall>c j. j \<noteq> i \<longrightarrow> cell out' c j = cell out c j))"
proof -
  from process_urls_from_sheet_Some[OF assms(2)] assms(1)
  have out: "out = process_table w df max_urls" by simp
  let ?r = "add_extracted_columns df"
  note here = cell_processed_row[OF _ assms(3)]
  have failed: "cell out c i = Some (PStr ''Error'')"
    if "iloc df i ''Company'' = Inr company" and "iloc df i ''Document type'' = Inr document_url"
      and "scrape w i document_url = Returns None \<or> scrape w i document_url = Returns (Some [])"
      and "c \<in> set extracted_columns"
    for company document_url c
  proof -
    from that(1,2,3) have "process_row w df i ?r = row_failed i ?r"
      by (auto simp: process_row_def)
    with here[OF that(4)] show ?thesis
      by (simp add: out cell_row_failed[OF that(4)])
  qed
  have raised: "cell out c i =
      Some (PStr (if c = ''Extracted Signed by'' then ''Error: '' @ exn_str e else ''Error''))"
    if "iloc df i ''Company'' = Inl e
          \<or> (\<exists>company. iloc df i ''Company'' = Inr company
                \<and> iloc df i ''Document type'' = Inl e)
          \<or> (\<exists>company document_url. iloc df i ''Company'' = Inr company
                \<and> iloc df i ''Document type'' = Inr document_url
                \<and> scrape w i document_url = Raises e)"
      and "c \<in> set extracted_columns"
    for e c
  proof -
    from that(1) have "process_row w df i ?r = row_error e i ?r"
      by (auto simp: process_row_def)
    with here[OF that(2)] show ?thesis
      by (simp add: out cell_row_error[OF that(2)])
  qed
  have others: "cell out' c j = cell out c j"
    if "read_csv w' = read_csv w" and "\<forall>j u. j \<noteq> i \<longrightarrow> scrape w' j u = scrape w j u"
      and "process_urls_from_sheet w' sheet_url max_urls = Some out'" and "j \<noteq> i"
    for w' out' c j
  proof -
    from process_urls_from_sheet_Some[OF that(3)] load_table_cong[OF that(1)] assms(1)
    have out': "out' = process_table w' df max_urls" by simp
    from that(2,4) have "process_row w' df j ?r = process_row w df j ?r"
      by (simp add: process_row_cong)
    then show ?thesis
      by (simp add: out out' cell_process_table)
  qed
  have cols: "''Extracted Signed by'' \<in> set extracted_columns"
    "''Extracted Signed date'' \<in> set extracted_columns"
    "''Extracted IP address'' \<in> set extracted_columns"
    "''Extracted Sent by'' \<in> set extracted_columns"
    by (simp_all add: extracted_columns_def)
  have raised4: "cell out ''Extracted Signed by'' i = Some (PStr (''Error: '' @ exn_str e))
              \<and> cell out ''Extracted Signed date'' i = Some (PStr ''Error'')
              \<and> cell out ''Extracted IP address'' i = Some (PStr ''Error'')
              \<and> cell out ''Extracted Sent by'' i = Some (PStr ''Error'')"
    if "iloc df i ''Company'' = Inl e
          \<or> (\<exists>company. iloc df i ''Company'' = Inr company
                \<and> iloc df i ''Document type'' = Inl e)
          \<or> (\<exists>company document_url. iloc df i ''Company'' = Inr company
                \<and> iloc df i ''Document type'' = Inr document_url
                \<and> scrape w i document_url = Raises e)"
    for e
    using raised[OF that cols(1)] raised[OF that cols(2)] raised[OF that cols(3)]
      raised[OF that cols(4)]
    by simp
  from failed raised4 others show ?thesis by blast
qed

lemma offline_load: "load_table world_offline example_sheet_url = sample_df"
  by (simp add: load_table_def read_google_sheet_def world_offline_def offline_csv_def)

lemma offline_result:
  "process_urls_from_sheet world_offline example_sheet_url max_urls =
     Some (the (process_urls_from_sheet world_offline example_sheet_url max_urls))"
  by (simp add: process_urls_from_sheet_def world_offline_def)

lemma nrows_sample_df: "nrows sample_df = 3"
  by (simp add: nrows_def sample_df_def)

text \<open>Claim C4 on the sample table: row 1 returns \<open>None\<close>, row 2 raises.\<close>

theorem process_urls_from_sheet_failed_row_witness:
  "cell (the (process_urls_from_sheet world_offline example_sheet_url 10)) ''Extracted Sent by'' 1
     = Some (PStr ''Error'')
   \<and> cell (the (process_urls_from_sheet world_offline example_sheet_url 10)) ''Extracted Signed by'' 2
     = Some (PStr ''Error: Message: session not created'')"
proof -
  have i1: "1 < urls_to_process 10 sample_df" and i2: "2 < urls_to_process 10 sample_df"
    by (simp_all add: urls_to_process_def nrows_sample_df)
  have c1: "iloc sample_df 1 ''Company'' = Inr (PStr ''Integrity Design'')"
    and d1: "iloc sample_df 1 ''Document type''
               = Inr (PStr ''https://betterproposals.io/2/proposals/view?id=2392944'')"
    and c2: "iloc sample_df 2 ''Company'' = Inr (PStr ''Providence Diamond'')"
    and d2: "iloc sample_df 2 ''Document type''
               = Inr (PStr ''https://betterproposals.io/2/proposals/view?id=2423564'')"
    by (simp_all add: iloc_def nrows_sample_df) (simp_all add: sample_df_def)
  have s1: "scrape world_offline 1 u = Returns None"
    and s2: "scrape world_offline 2 u = Raises (OtherError ''Message: session not created'')" for u
    by (simp_all add: world_offline_def mixed_scrape_def)
  have col: "''Extracted Sent by'' \<in> set extracted_columns"
    by (simp add: extracted_columns_def)
  from process_urls_from_sheet_failed_row[OF offline_load offline_result i1] c1 d1 s1 col
  have "cell (the (process_urls_from_sheet world_offline example_sheet_url 10))
          ''Extracted Sent by'' 1 = Some (PStr ''Error'')"
    by blast
  moreover
  from process_urls_from_sheet_failed_row[OF offline_load offline_result i2] c2 d2 s2
  have "cell (the (process_urls_from_sheet world_offline example_sheet_url 10))
          ''Extracted Signed by'' 2
          = Some (PStr (''Error: '' @ exn_str (OtherError ''Message: session not created'')))"
    by blast
  ultimately show ?thesis by simp
qed

section \<open>Rows beyond the cap\<close>

text \<open>
  Claim C10 as stated fails for an input table that already has a column named like one
  of the four new ones: in a row beyond the cap that original cell is replaced by the empty
  string.
\<close>

theorem rows_beyond_cap_counterexample:
  "load_table world_collision example_sheet_url = collision_df
   \<and> nrows collision_df = 1
   \<and> urls_to_process 0 collision_df = 0
   \<and> cell collision_df ''Extracted Sent by'' 0 = Some (PStr ''Ann'')
   \<and> process_urls_from_sheet world_collision example_sheet_url 0 =
       Some [(''Company'', [PStr ''Acme'']),
             (''Document type'', [PStr ''https://betterproposals.io/2/proposals/view?id=1'']),
             (''Extracted Sent by'', [PStr []]),
             (''Extracted Signed by'', [PStr []]),
             (''Extracted Signed date'', [PStr []]),
             (''Extracted IP address'', [PStr []])]"
  by code_simp

text \<open>
  Claim C10, amended. In every output row at an index at or beyond
  \<open>min(max_urls, row count)\<close> the four extracted cells are the empty string, and the cell of
  every column not named like one of the four extracted columns is the input's cell: the
  row is emitted, not omitted.
\<close>

theorem rows_beyond_cap:
  assumes "load_table w sheet_url = df"
    and "process_urls_from_sheet w sheet_url max_urls = Some out"
    and "urls_to_process max_urls df \<le> j"
    and "j < nrows df"
  shows "(\<forall>c\<in>set extracted_columns. cell out c j = Some (PStr []))
     \<and> (\<forall>c. c \<notin> set extracted_columns \<longrightarrow> cell out c j = cell df c j)"
proof -
  from process_urls_from_sheet_Some[OF assms(2)] assms(1)
  have out: "out = process_table w df max_urls" by simp
  from assms(3) have "\<not> j < urls_to_process max_urls df" by simp
  then have "cell out c j = cell (add_extracted_columns df) c j" for c
    by (simp add: out cell_process_table)
  with assms(4) show ?thesis
    by (simp add: cell_add_extracted_columns)
qed

text \<open>The amended claim C10 on the sample table with \<open>max_urls = 2\<close>, at row 2.\<close>

theorem rows_beyond_cap_witness:
  "cell (the (process_urls_from_sheet world_offline example_sheet_url 2)) ''Extracted Sent by'' 2
     = Some (PStr [])
   \<and> cell (the (process_urls_from_sheet world_offline example_sheet_url 2)) ''Company'' 2
     = Some (PStr ''Providence Diamond'')"
proof -
  have cap: "urls_to_process 2 sample_df \<le> 2"
    by (simp add: urls_to_process_def)
  have n: "2 < nrows sample_df"
    by (simp add: nrows_sample_df)
  have col: "''Extracted Sent by'' \<in> set extracted_columns"
    and org: "''Company'' \<notin> set extracted_columns"
    by (simp_all add: extracted_columns_def)
  have c: "cell sample_df ''Company'' 2 = Some (PStr ''Providence Diamond'')"
    by (simp add: cell_def sample_df_def)
  from rows_beyond_cap[OF offline_load offline_result cap n] col org c
  show ?thesis by simp
qed

section \<open>The sample table\<close>

text \<open>
  \<open>read_google_sheet\<close> catches every exception itself, so the handler that calls
  \<open>download_google_sheet\<close> never runs: the table is decided by the first read alone.
\<close>

lemma load_table_reads_once:
  "load_table w sheet_url =
     (case read_csv w (export_url sheet_url) of
        Inl e \<Rightarrow> sample_df
      | Inr df \<Rightarrow> if nrows df = 0 then sample_df else df)"
  by (simp add: load_table_def read_google_sheet_def split: sum.split)



end
